theory Spec2Isabelle
  imports Complex_Main
begin

section \<open>JavaScript values\<close>

text \<open>
  The server (\<^verbatim>\<open>src/index.js\<close>) handles JSON request bodies and MongoDB documents, both
  loosely typed. A value is one of the scalars below; a document or request body is a finite
  map from field names to values, an absent field reading as \<open>undefined\<close>.

  Nested objects and arrays inside a field are not represented.
\<close>

subsection \<open>Numbers\<close>

text \<open>
  A number is an IEEE 754 double: \<open>NaN\<close>, an infinity (\<open>Infinity True\<close> is the positive
  one) or a finite value, given by the rational it equals. The sign of zero is not
  represented. In a request body or a document, \<open>Fin x\<close> is the number written \<open>x\<close>:
  the program holds the double nearest to \<open>x\<close> (\<open>round_double x\<close>), as \<^verbatim>\<open>JSON.parse\<close>
  reads it, so \<open>Fin (201 / 200)\<close> is the double that 1.005 denotes.
\<close>

datatype jsnum = NaN | Infinity bool | Fin rat

text \<open>The binary logarithm of a positive rational, rounded down: \<open>log2_up\<close> from 1 on,
  \<open>log2_down\<close> (the negated logarithm, rounded up) below 1.\<close>

function log2_up :: "rat \<Rightarrow> nat" where
  "log2_up y = (if y < 2 then 0 else Suc (log2_up (y / 2)))"
  by pat_completeness auto
termination
proof (relation "measure (\<lambda>y. nat \<lfloor>y\<rfloor>)")
  show "wf (measure (\<lambda>y::rat. nat \<lfloor>y\<rfloor>))" by simp
next
  fix y :: rat
  assume "\<not> y < 2"
  then have "\<lfloor>y / 2\<rfloor> < \<lfloor>y\<rfloor>" and "0 < \<lfloor>y\<rfloor>"
    by (simp_all add: floor_less_iff le_floor_iff) linarith+
  then show "(y / 2, y) \<in> measure (\<lambda>y. nat \<lfloor>y\<rfloor>)" by simp
qed

function log2_down :: "rat \<Rightarrow> nat" where
  "log2_down y = (if y \<le> 0 \<or> 1 \<le> y then 0 else Suc (log2_down (2 * y)))"
  by pat_completeness auto
termination
proof (relation "measure (\<lambda>y. nat \<lfloor>1 / y\<rfloor>)")
  show "wf (measure (\<lambda>y::rat. nat \<lfloor>1 / y\<rfloor>))" by simp
next
  fix y :: rat
  assume "\<not> (y \<le> 0 \<or> 1 \<le> y)"
  define z where "z = 1 / y"
  have z: "1 \<le> z"
    using \<open>\<not> (y \<le> 0 \<or> 1 \<le> y)\<close> by (simp add: z_def)
  have "z - 1 < of_int \<lfloor>z\<rfloor>" by linarith
  moreover have "(1 :: rat) \<le> of_int \<lfloor>z\<rfloor>"
    using z by (simp add: le_floor_iff)
  ultimately have "z / 2 < of_int \<lfloor>z\<rfloor>" by linarith
  then have lt: "\<lfloor>z / 2\<rfloor> < \<lfloor>z\<rfloor>"
    by (simp only: floor_less_iff)
  have pos: "0 < \<lfloor>z\<rfloor>"
    using z by (simp add: le_floor_iff)
  have eq: "1 / (2 * y) = z / 2" by (simp add: z_def)
  show "(2 * y, y) \<in> measure (\<lambda>y. nat \<lfloor>1 / y\<rfloor>)"
    unfolding in_measure eq using lt pos unfolding z_def by linarith
qed

declare log2_up.simps [simp del] log2_down.simps [simp del]

definition ilog2 :: "rat \<Rightarrow> int" where
  "ilog2 y = (if 1 \<le> y then int (log2_up y) else - int (log2_down y))"

text \<open>Rounding to the nearest integer, a tie going to the even one.\<close>

definition round_half_even :: "rat \<Rightarrow> int" where
  "round_half_even y =
     (let f = \<lfloor>y\<rfloor>; d = y - of_int f
      in if d < 1 / 2 then f else if 1 / 2 < d then f + 1 else if even f then f else f + 1)"

text \<open>
  Rounding a positive rational to 53 significant bits, the exponent of the last bit not
  below -1074 (subnormal numbers); then rounding to a double: round to nearest, ties to
  even, a result of \<open>2 ^ 1024\<close> or more overflowing to an infinity.
\<close>

definition round_mag :: "rat \<Rightarrow> rat" where
  "round_mag y =
     (let e = max (ilog2 y - 52) (- 1074)
      in of_int (round_half_even (y / 2 powi e)) * 2 powi e)"

definition round_double :: "rat \<Rightarrow> jsnum" where
  "round_double x =
     (if x = 0 then Fin 0
      else if 2 ^ 1024 \<le> round_mag \<bar>x\<bar> then Infinity (0 < x)
      else Fin (sgn x * round_mag \<bar>x\<bar>))"

text \<open>The double that a number of a body or document is.\<close>

fun to_double :: "jsnum \<Rightarrow> jsnum" where
  "to_double (Fin x) = round_double x"
| "to_double n = n"

subsection \<open>Values\<close>

datatype jsval =
    JUndefined
  | JNull
  | JBool bool
  | JNum jsnum
  | JStr string
  | JDate int        \<comment> \<open>a Date object, milliseconds since the epoch\<close>
  | JObjectId nat    \<comment> \<open>a MongoDB ObjectId\<close>

type_synonym doc = "string \<rightharpoonup> jsval"

definition get :: "doc \<Rightarrow> string \<Rightarrow> jsval" where
  "get d k = (case d k of None \<Rightarrow> JUndefined | Some v \<Rightarrow> v)"

text \<open>Truthiness, as used by \<^verbatim>\<open>!x\<close>, \<^verbatim>\<open>x || y\<close> and \<^verbatim>\<open>if (x)\<close>.\<close>

fun truthy :: "jsval \<Rightarrow> bool" where
  "truthy JUndefined = False"
| "truthy JNull = False"
| "truthy (JBool b) = b"
| "truthy (JNum n) =
     (case to_double n of NaN \<Rightarrow> False | Infinity s \<Rightarrow> True | Fin v \<Rightarrow> v \<noteq> 0)"
| "truthy (JStr s) = (s \<noteq> [])"
| "truthy (JDate t) = True"
| "truthy (JObjectId i) = True"

definition js_or :: "jsval \<Rightarrow> jsval \<Rightarrow> jsval" where
  "js_or a b = (if truthy a then a else b)"

text \<open>
  What the handlers use of the JavaScript runtime, the MongoDB driver and the process
  environment is a parameter of the model: the theorems hold for every such runtime.
  \<^item> \<open>StringToNumber s\<close> is \<^verbatim>\<open>Number(s)\<close> on a string;
  \<^item> \<open>ToString v\<close> is \<^verbatim>\<open>v.toString()\<close>;
  \<^item> \<open>ObjectId v\<close> is \<^verbatim>\<open>new ObjectId(v)\<close>, \<open>None\<close> when the constructor throws;
  \<^item> \<open>toISOString t\<close> is \<^verbatim>\<open>new Date(t).toISOString()\<close>;
  \<^item> \<open>localYearMonth v\<close> is \<^verbatim>\<open>d = new Date(v)\<close> read through \<^verbatim>\<open>d.getFullYear()\<close> and
    \<^verbatim>\<open>d.getMonth()\<close> (0 is January), \<open>None\<close> when \<^verbatim>\<open>isNaN(d)\<close>; years before year 0 are
    not represented;
  \<^item> \<open>SITE_DOMAIN\<close> is \<^verbatim>\<open>process.env.SITE_DOMAIN\<close>.
\<close>

record runtime =
  StringToNumber :: "string \<Rightarrow> jsnum"
  ToString :: "jsval \<Rightarrow> string"
  ObjectId :: "jsval \<Rightarrow> nat option"
  toISOString :: "int \<Rightarrow> string"
  localYearMonth :: "jsval \<Rightarrow> (nat \<times> nat) option"
  SITE_DOMAIN :: string

fun ToNumber :: "runtime \<Rightarrow> jsval \<Rightarrow> jsnum" where
  "ToNumber rt JUndefined = NaN"
| "ToNumber rt JNull = Fin 0"
| "ToNumber rt (JBool b) = Fin (if b then 1 else 0)"
| "ToNumber rt (JNum n) = to_double n"
| "ToNumber rt (JStr s) = StringToNumber rt s"
| "ToNumber rt (JDate t) = Fin (of_int t)"
| "ToNumber rt (JObjectId i) = StringToNumber rt (ToString rt (JObjectId i))"

text \<open>The product of two doubles: the exact product, rounded.\<close>

fun num_times :: "jsnum \<Rightarrow> jsnum \<Rightarrow> jsnum" where
  "num_times NaN b = NaN"
| "num_times a NaN = NaN"
| "num_times (Fin x) (Fin y) = round_double (x * y)"
| "num_times (Infinity s) (Fin y) = (if y = 0 then NaN else Infinity (s = (0 < y)))"
| "num_times (Fin x) (Infinity t) = (if x = 0 then NaN else Infinity ((0 < x) = t))"
| "num_times (Infinity s) (Infinity t) = Infinity (s = t)"

definition js_times :: "runtime \<Rightarrow> jsval \<Rightarrow> jsval \<Rightarrow> jsnum" where
  "js_times rt a b = num_times (ToNumber rt a) (ToNumber rt b)"

text \<open>\<^verbatim>\<open>Math.round\<close>: the nearest integer, a half rounding up. It is exact: no rounding
  of \<open>x + 1 / 2\<close> takes place.\<close>

fun Math_round :: "jsnum \<Rightarrow> jsnum" where
  "Math_round NaN = NaN"
| "Math_round (Infinity s) = Infinity s"
| "Math_round (Fin x) = Fin (of_int \<lfloor>x + 1 / 2\<rfloor>)"

section \<open>The document store\<close>

text \<open>
  A collection is the list of its documents in insertion order. Only what the handlers use
  is modelled: equality filters, \<^verbatim>\<open>findOne\<close>, \<^verbatim>\<open>insertOne\<close>, \<^verbatim>\<open>updateOne\<close> with \<^verbatim>\<open>$set\<close>
  and the \<^verbatim>\<open>upsert\<close> option. The store's own validation (a duplicate or changed \<^verbatim>\<open>_id\<close>,
  dotted paths, operator keys) and its failures (a lost connection) are not modelled: every
  store call succeeds. The code creates no index, so none is modelled.
\<close>

text \<open>The filter \<^verbatim>\<open>{ k: v }\<close>; a \<^verbatim>\<open>null\<close> (or \<^verbatim>\<open>undefined\<close>) value also matches a document
  without the field.\<close>

definition matches :: "string \<Rightarrow> jsval \<Rightarrow> doc \<Rightarrow> bool" where
  "matches k v d =
     (if v = JNull \<or> v = JUndefined then d k = None \<or> d k = Some JNull \<or> d k = Some JUndefined
      else d k = Some v)"

definition findOne :: "(doc \<Rightarrow> bool) \<Rightarrow> doc list \<Rightarrow> doc option" where
  "findOne q c = List.find q c"

text \<open>\<^verbatim>\<open>insertOne\<close>: a document without \<^verbatim>\<open>_id\<close> gets a fresh ObjectId (the counter \<open>n\<close>).
  The result is the inserted id, the collection and the counter.\<close>

definition insertOne :: "doc \<Rightarrow> doc list \<Rightarrow> nat \<Rightarrow> jsval \<times> doc list \<times> nat" where
  "insertOne d c n =
     (case d ''_id'' of
        None \<Rightarrow> (JObjectId n, c @ [d(''_id'' \<mapsto> JObjectId n)], Suc n)
      | Some i \<Rightarrow> (i, c @ [d], n))"

text \<open>\<^verbatim>\<open>updateOne(filter, { $set: upd })\<close>: the first matching document takes the fields of
  \<open>upd\<close>.\<close>

fun updateOne :: "(doc \<Rightarrow> bool) \<Rightarrow> doc \<Rightarrow> doc list \<Rightarrow> doc list" where
  "updateOne q upd [] = []"
| "updateOne q upd (d # ds) = (if q d then (d ++ upd) # ds else d # updateOne q upd ds)"

definition matchedCount :: "(doc \<Rightarrow> bool) \<Rightarrow> doc list \<Rightarrow> nat" where
  "matchedCount q c = (if list_ex q c then 1 else 0)"

section \<open>The payment provider\<close>

text \<open>
  The Stripe client is external. A checkout session as \<^verbatim>\<open>sessions.retrieve\<close> returns it has
  the fields the handler reads, typed as the provider documents them (\<open>None\<close> is \<^verbatim>\<open>null\<close>).
  Both calls may throw (\<open>None\<close>). Every call made is appended to a log kept in the state.
\<close>

record session =
  payment_intent :: "string option"
  amount_total :: "int option"
  currency :: "string option"
  metadata :: "doc option"
  payment_status :: string
  customer_email :: "string option"

record checkout_request =
  req_customer_email :: jsval
  req_currency :: string
  req_unit_amount :: jsval
  req_product_name :: jsval
  req_quantity :: nat
  req_metadata :: doc
  req_success_url :: string
  req_cancel_url :: string

record stripe =
  sessions_create :: "checkout_request \<Rightarrow> string option"
  sessions_retrieve :: "string \<Rightarrow> session option"

datatype stripe_call = Create checkout_request | Retrieve string

definition nullable :: "('a \<Rightarrow> jsval) \<Rightarrow> 'a option \<Rightarrow> jsval" where
  "nullable f x = (case x of None \<Rightarrow> JNull | Some y \<Rightarrow> f y)"

section \<open>Server state and responses\<close>

record world =
  bookingCollection :: "doc list"
  paymentCollection :: "doc list"
  usersCollection :: "doc list"
  next_oid :: nat
  stripe_calls :: "stripe_call list"

text \<open>A response is the HTTP status and the body sent. The \<^verbatim>\<open>error\<close> text that a 500 response
  adds to its message is left out.\<close>

datatype body =
    Message string
  | InsertResult jsval
  | UpdateResult nat "jsval option"
  | CheckoutUrl string
  | AlreadyExists jsval doc
  | PaymentConfirmed jsval jsval jsval "doc option"
  | PaymentNotCompleted

type_synonym response = "nat \<times> body"

section \<open>Booking creation\<close>

text \<open>\<^verbatim>\<open>POST /bookings\<close>.\<close>

definition post_bookings :: "int \<Rightarrow> doc \<Rightarrow> world \<Rightarrow> response \<times> world" where
  "post_bookings now booking w =
     (if \<not> truthy (get booking ''tourId'') \<or> \<not> truthy (get booking ''userEmail'')
         \<or> \<not> truthy (get booking ''travelDate'')
      then ((400, Message ''Missing required fields: tourId, userEmail, and travelDate are required''), w)
      else
        let booking' = booking
              (''createdAt'' \<mapsto> JDate now,
               ''status'' \<mapsto> js_or (get booking ''status'') (JStr ''pending''),
               ''paymentStatus'' \<mapsto> js_or (get booking ''paymentStatus'') (JStr ''unpaid''))
        in case insertOne booking' (bookingCollection w) (next_oid w) of
             (i, c, n) \<Rightarrow> ((200, InsertResult i), w\<lparr>bookingCollection := c, next_oid := n\<rparr>))"

section \<open>Checkout initiator\<close>

text \<open>The charge in cents:
  \<^verbatim>\<open>Math.round(Number(finalPrice || originalTotal || pricePerPerson * (guests || numberOfGuests || 1)) * 100) || 0\<close>.\<close>

definition guest_count :: "doc \<Rightarrow> jsval" where
  "guest_count booking =
     js_or (get booking ''guests'') (js_or (get booking ''numberOfGuests'') (JNum (Fin 1)))"

definition booking_price :: "runtime \<Rightarrow> doc \<Rightarrow> jsval" where
  "booking_price rt booking =
     js_or (get booking ''finalPrice'')
       (js_or (get booking ''originalTotal'')
          (JNum (js_times rt (get booking ''pricePerPerson'') (guest_count booking))))"

text \<open>\<^verbatim>\<open>Math.round(n * 100) || 0\<close>, for the number \<open>n\<close> that \<^verbatim>\<open>Number\<close> returns.\<close>

definition cents :: "jsnum \<Rightarrow> jsval" where
  "cents n = js_or (JNum (Math_round (num_times n (Fin 100)))) (JNum (Fin 0))"

definition checkout_amount :: "runtime \<Rightarrow> doc \<Rightarrow> jsval" where
  "checkout_amount rt booking = cents (ToNumber rt (booking_price rt booking))"

text \<open>\<^verbatim>\<open>booking.tourId?.toString() || ""\<close>.\<close>

definition tourId_string :: "runtime \<Rightarrow> doc \<Rightarrow> jsval" where
  "tourId_string rt booking =
     (let t = get booking ''tourId''
      in js_or (if t = JUndefined \<or> t = JNull then JUndefined else JStr (ToString rt t)) (JStr ''''))"

definition checkout_session_request :: "runtime \<Rightarrow> doc \<Rightarrow> jsval \<Rightarrow> checkout_request" where
  "checkout_session_request rt booking amount =
     \<lparr> req_customer_email = js_or (get booking ''userEmail'') JUndefined,
       req_currency = ''usd'',
       req_unit_amount = amount,
       req_product_name = js_or (get booking ''tourTitle'') (JStr ''Tour Booking''),
       req_quantity = 1,
       req_metadata =
         [''bookingId'' \<mapsto> JStr (ToString rt (get booking ''_id'')),
          ''tourId'' \<mapsto> tourId_string rt booking,
          ''userEmail'' \<mapsto> js_or (get booking ''userEmail'') (JStr '''')],
       req_success_url = SITE_DOMAIN rt @ ''/payment-success?session_id={CHECKOUT_SESSION_ID}'',
       req_cancel_url = SITE_DOMAIN rt @ ''/dashboard/my-booking'' \<rparr>"

text \<open>\<^verbatim>\<open>POST /create-checkout-session\<close>. An exception (a malformed id, a failed provider call)
  reaches the handler's \<^verbatim>\<open>catch\<close> and is answered with status 500.\<close>

definition create_checkout_session ::
    "runtime \<Rightarrow> stripe \<Rightarrow> doc \<Rightarrow> world \<Rightarrow> response \<times> world" where
  "create_checkout_session rt sp reqbody w =
     (let bookingId = get reqbody ''bookingId'' in
      if \<not> truthy bookingId then ((400, Message ''bookingId is required''), w)
      else case ObjectId rt bookingId of
        None \<Rightarrow> ((500, Message ''Failed to create checkout session''), w)
      | Some oid \<Rightarrow>
         (case findOne (matches ''_id'' (JObjectId oid)) (bookingCollection w) of
            None \<Rightarrow> ((404, Message ''Booking not found''), w)
          | Some booking \<Rightarrow>
             (let amount = checkout_amount rt booking in
              if \<not> truthy amount then ((400, Message ''Invalid booking amount''), w)
              else
                let rq = checkout_session_request rt booking amount;
                    w' = w\<lparr>stripe_calls := stripe_calls w @ [Create rq]\<rparr>
                in case sessions_create sp rq of
                     None \<Rightarrow> ((500, Message ''Failed to create checkout session''), w')
                   | Some url \<Rightarrow> ((200, CheckoutUrl url), w'))))"

section \<open>Payment reconciler\<close>

definition payment_doc :: "int \<Rightarrow> session \<Rightarrow> doc" where
  "payment_doc now s =
     (let meta = (case metadata s of None \<Rightarrow> Map.empty | Some m \<Rightarrow> m)
      in [''bookingId'' \<mapsto> js_or (get meta ''bookingId'') (JStr ''''),
          ''tourId'' \<mapsto> js_or (get meta ''tourId'') (JStr ''''),
          ''userEmail'' \<mapsto> js_or (get meta ''userEmail'') (nullable JStr (customer_email s)),
          ''amount'' \<mapsto> nullable (\<lambda>n. JNum (Fin (of_int n))) (amount_total s),
          ''currency'' \<mapsto> nullable JStr (currency s),
          ''transactionId'' \<mapsto> nullable JStr (payment_intent s),
          ''paymentStatus'' \<mapsto> JStr (payment_status s),
          ''createdAt'' \<mapsto> JDate now])"

definition booking_paid_update :: "runtime \<Rightarrow> int \<Rightarrow> jsval \<Rightarrow> doc" where
  "booking_paid_update rt now transactionId =
     [''paymentStatus'' \<mapsto> JStr ''paid'',
      ''status'' \<mapsto> JStr ''confirmed'',
      ''transactionId'' \<mapsto> transactionId,
      ''updatedAt'' \<mapsto> JStr (toISOString rt now)]"

text \<open>\<^verbatim>\<open>GET /booking-success\<close>. The query parameter \<^verbatim>\<open>session_id\<close> is absent or a string. The
  handler's reads of the clock are one instant \<open>now\<close>. The payment is inserted before the
  booking id is parsed, so a malformed \<^verbatim>\<open>metadata.bookingId\<close> answers 500 with the payment
  recorded.\<close>

definition booking_success ::
    "runtime \<Rightarrow> stripe \<Rightarrow> int \<Rightarrow> string option \<Rightarrow> world \<Rightarrow> response \<times> world" where
  "booking_success rt sp now session_id w =
     (case session_id of
        None \<Rightarrow> ((400, Message ''Missing session_id''), w)
      | Some sid \<Rightarrow>
        if sid = [] then ((400, Message ''Missing session_id''), w)
        else
          let w0 = w\<lparr>stripe_calls := stripe_calls w @ [Retrieve sid]\<rparr> in
          case sessions_retrieve sp sid of
            None \<Rightarrow> ((500, Message ''Failed to confirm booking''), w0)
          | Some s \<Rightarrow>
             (let transactionId = nullable JStr (payment_intent s);
                  meta = (case metadata s of None \<Rightarrow> Map.empty | Some m \<Rightarrow> m)
              in case findOne (matches ''transactionId'' transactionId) (paymentCollection w0) of
                   Some existing \<Rightarrow> ((200, AlreadyExists transactionId existing), w0)
                 | None \<Rightarrow>
                    if payment_status s = ''paid'' then
                      (case insertOne (payment_doc now s) (paymentCollection w0) (next_oid w0) of
                         (paymentId, pc, n) \<Rightarrow>
                          (let w1 = w0\<lparr>paymentCollection := pc, next_oid := n\<rparr> in
                           if truthy (get meta ''bookingId'') then
                             (case ObjectId rt (get meta ''bookingId'') of
                                None \<Rightarrow> ((500, Message ''Failed to confirm booking''), w1)
                              | Some oid \<Rightarrow>
                                 (let w2 = w1\<lparr>bookingCollection :=
                                        updateOne (matches ''_id'' (JObjectId oid))
                                          (booking_paid_update rt now transactionId)
                                          (bookingCollection w1)\<rparr>
                                  in ((200, PaymentConfirmed transactionId paymentId
                                         (get meta ''bookingId'')
                                         (findOne (matches ''_id'' (JObjectId oid))
                                            (bookingCollection w2))), w2)))
                           else
                             ((200, PaymentConfirmed transactionId paymentId
                                 (get meta ''bookingId'') None), w1)))
                    else ((200, PaymentNotCompleted), w0)))"

section \<open>Users\<close>

text \<open>\<^verbatim>\<open>updateOne(filter, { $set: upd }, { upsert: true })\<close> with the filter \<^verbatim>\<open>{ k: v }\<close>: without a
  match, the document inserted has the filter's field and the fields of \<open>upd\<close>. The result is
  the matched count, the upserted id, the collection and the id counter.\<close>

definition upsertOne ::
    "string \<Rightarrow> jsval \<Rightarrow> doc \<Rightarrow> doc list \<Rightarrow> nat \<Rightarrow> nat \<times> jsval option \<times> doc list \<times> nat" where
  "upsertOne k v upd c n =
     (if list_ex (matches k v) c then (1, None, updateOne (matches k v) upd c, n)
      else case insertOne ([k \<mapsto> v] ++ upd) c n of
             (i, c', n') \<Rightarrow> (0, Some i, c', n'))"

text \<open>\<^verbatim>\<open>POST /users\<close>.\<close>

definition post_users :: "int \<Rightarrow> doc \<Rightarrow> world \<Rightarrow> response \<times> world" where
  "post_users now user w =
     (if \<not> truthy (get user ''email'') then ((400, Message ''Email is required''), w)
      else
        let user' = user
              (''role'' \<mapsto> js_or (get user ''role'') (JStr ''user''),
               ''updatedAt'' \<mapsto> JDate now)
        in case upsertOne ''email'' (get user ''email'') user' (usersCollection w) (next_oid w) of
             (m, u, c, n) \<Rightarrow> ((200, UpdateResult m u), w\<lparr>usersCollection := c, next_oid := n\<rparr>))"

text \<open>\<^verbatim>\<open>PATCH /users/profile/:email\<close>.\<close>

definition patch_users_profile :: "int \<Rightarrow> string \<Rightarrow> doc \<Rightarrow> world \<Rightarrow> response \<times> world" where
  "patch_users_profile now email reqbody w =
     (let updated = reqbody(''email'' := None, ''role'' := None);
          upd = updated(''updatedAt'' \<mapsto> JDate now);
          q = matches ''email'' (JStr email)
      in ((200, UpdateResult (matchedCount q (usersCollection w)) None),
          w\<lparr>usersCollection := updateOne q upd (usersCollection w)\<rparr>))"

section \<open>Dashboard: the booking chart\<close>

text \<open>
  Of \<^verbatim>\<open>GET /dashboard-stats\<close> the booking chart is modelled. \<^verbatim>\<open>monthMap\<close> is an object
  whose keys \<^verbatim>\<open>`${year}-${month}`\<close> are kept in insertion order; for the years represented
  the key is read back (\<^verbatim>\<open>split("-").map(Number)\<close>) as the same year and month, so the pair
  itself is the key.
\<close>

fun bump :: "nat \<times> nat \<Rightarrow> ((nat \<times> nat) \<times> nat) list \<Rightarrow> ((nat \<times> nat) \<times> nat) list" where
  "bump key [] = [(key, 1)]"
| "bump key ((k, c) # m) = (if k = key then (k, c + 1) # m else (k, c) # bump key m)"

definition monthMap :: "runtime \<Rightarrow> doc list \<Rightarrow> ((nat \<times> nat) \<times> nat) list" where
  "monthMap rt allBookings =
     foldl (\<lambda>m b. case localYearMonth rt (get b ''createdAt'') of
                     None \<Rightarrow> m
                   | Some key \<Rightarrow> bump key m) [] allBookings"

text \<open>\<^verbatim>\<open>new Date(year, month, 1).getTime()\<close> orders the months as the index below does; the
  constructor reads a year below 100 as a year of the twentieth century.\<close>

definition sortKey :: "nat \<times> nat \<Rightarrow> nat" where
  "sortKey key = (case key of (year, month) \<Rightarrow>
     (if year < 100 then 1900 + year else year) * 12 + month)"

text \<open>The entries sorted (the sort is stable) and the last six kept: \<^verbatim>\<open>.slice(-6)\<close>.\<close>

definition chart_months :: "runtime \<Rightarrow> doc list \<Rightarrow> ((nat \<times> nat) \<times> nat) list" where
  "chart_months rt allBookings =
     (let sorted = sort_key (\<lambda>e. sortKey (fst e)) (monthMap rt allBookings)
      in drop (length sorted - 6) sorted)"

definition monthNames :: "string list" where
  "monthNames = [''Jan'', ''Feb'', ''Mar'', ''Apr'', ''May'', ''Jun'',
                 ''Jul'', ''Aug'', ''Sep'', ''Oct'', ''Nov'', ''Dec'']"

fun decimal :: "nat \<Rightarrow> string" where
  "decimal n =
     (if n < 10 then [''0123456789'' ! n] else decimal (n div 10) @ [''0123456789'' ! (n mod 10)])"

declare decimal.simps [simp del]

text \<open>\<^verbatim>\<open>`${monthNames[month]} ${String(year).slice(-2)}`\<close>.\<close>

definition chart_name :: "nat \<times> nat \<Rightarrow> string" where
  "chart_name key = (case key of (year, month) \<Rightarrow>
     (if month < 12 then monthNames ! month else ''undefined'') @ '' '' @
     drop (length (decimal year) - 2) (decimal year))"

definition bookingChartData :: "runtime \<Rightarrow> doc list \<Rightarrow> (string \<times> nat) list" where
  "bookingChartData rt allBookings =
     map (\<lambda>e. (chart_name (fst e), snd e)) (chart_months rt allBookings)"

text \<open>The number of bookings created in a month.\<close>

definition created_in :: "runtime \<Rightarrow> doc list \<Rightarrow> nat \<times> nat \<Rightarrow> nat" where
  "created_in rt allBookings key =
     length (filter (\<lambda>b. localYearMonth rt (get b ''createdAt'') = Some key) allBookings)"

text \<open>The trailing six-month window of the specification: the month of the call and the five
  months before it.\<close>

definition month_index :: "nat \<times> nat \<Rightarrow> nat" where
  "month_index key = (case key of (year, month) \<Rightarrow> year * 12 + month)"

definition in_trailing_window :: "nat \<times> nat \<Rightarrow> nat \<times> nat \<Rightarrow> bool" where
  "in_trailing_window call key =
     (month_index key \<le> month_index call \<and> month_index call < month_index key + 6)"

section \<open>A concrete runtime and provider for the examples\<close>

text \<open>
  The examples below run the handlers on concrete requests. Their runtime computes what Node
  computes, in the UTC time zone, on the inputs the examples use:
  \<^item> \<^verbatim>\<open>Number(s)\<close> on a string of decimal digits (the empty string is 0); any other string is
    taken as not a number;
  \<^item> \<^verbatim>\<open>toString()\<close> on a string and on an ObjectId (24 hexadecimal digits);
  \<^item> \<^verbatim>\<open>new ObjectId(s)\<close> on a string: the id of a string of 24 hexadecimal digits, an
    exception for a string of another length;
  \<^item> \<^verbatim>\<open>new Date(v)\<close> on a Date object and on a number; date strings are not parsed.
\<close>

definition digit_value :: "nat \<Rightarrow> char \<Rightarrow> nat option" where
  "digit_value base c =
     (let n = (of_char c :: nat);
          d = (if 48 \<le> n \<and> n \<le> 57 then Some (n - 48)
               else if 97 \<le> n \<and> n \<le> 102 then Some (n - 87)
               else if 65 \<le> n \<and> n \<le> 70 then Some (n - 55)
               else None)
      in case d of None \<Rightarrow> None | Some v \<Rightarrow> if v < base then Some v else None)"

fun digits_value :: "nat \<Rightarrow> nat \<Rightarrow> string \<Rightarrow> nat option" where
  "digits_value base acc [] = Some acc"
| "digits_value base acc (c # cs) =
     (case digit_value base c of
        None \<Rightarrow> None
      | Some d \<Rightarrow> digits_value base (base * acc + d) cs)"

fun hex_digits :: "nat \<Rightarrow> nat \<Rightarrow> string" where
  "hex_digits 0 n = []"
| "hex_digits (Suc k) n = hex_digits k (n div 16) @ [''0123456789abcdef'' ! (n mod 16)]"

text \<open>Days since the epoch to the civil date (year, month from 1, day).\<close>

definition civil :: "int \<Rightarrow> int \<times> int \<times> int" where
  "civil days =
     (let z = days + 719468;
          era = z div 146097;
          doe = z mod 146097;
          yoe = (doe - doe div 1460 + doe div 36524 - doe div 146096) div 365;
          doy = doe - (365 * yoe + yoe div 4 - yoe div 100);
          mp = (5 * doy + 2) div 153;
          d = doy - (153 * mp + 2) div 5 + 1;
          m = (if mp < 10 then mp + 3 else mp - 9);
          y = yoe + era * 400 + (if m \<le> 2 then 1 else 0)
      in (y, m, d))"

definition utc_year_month :: "int \<Rightarrow> (nat \<times> nat) option" where
  "utc_year_month t =
     (case civil (t div 86400000) of (y, m, d) \<Rightarrow>
        if 0 \<le> y then Some (nat y, nat (m - 1)) else None)"

definition pad :: "nat \<Rightarrow> int \<Rightarrow> string" where
  "pad k n = (let s = decimal (nat n) in replicate (k - length s) (CHR ''0'') @ s)"

definition utc_iso :: "int \<Rightarrow> string" where
  "utc_iso t =
     (case civil (t div 86400000) of (y, m, d) \<Rightarrow>
        let ms = t mod 86400000
        in pad 4 y @ ''-'' @ pad 2 m @ ''-'' @ pad 2 d @ ''T'' @
           pad 2 (ms div 3600000) @ '':'' @ pad 2 (ms div 60000 mod 60) @ '':'' @
           pad 2 (ms div 1000 mod 60) @ ''.'' @ pad 3 (ms mod 1000) @ ''Z'')"

definition demo_runtime :: runtime where
  "demo_runtime =
     \<lparr> StringToNumber = (\<lambda>s. case digits_value 10 0 s of
                               None \<Rightarrow> NaN
                             | Some n \<Rightarrow> round_double (of_nat n)),
       ToString = (\<lambda>v. case v of
                         JStr s \<Rightarrow> s
                       | JObjectId i \<Rightarrow> hex_digits 24 i
                       | _ \<Rightarrow> []),
       ObjectId = (\<lambda>v. case v of
                         JStr s \<Rightarrow> if length s = 24 then digits_value 16 0 s else None
                       | _ \<Rightarrow> None),
       toISOString = utc_iso,
       localYearMonth = (\<lambda>v. case v of
                               JDate t \<Rightarrow> utc_year_month t
                             | JNum n \<Rightarrow>
                                 (case to_double n of
                                    Fin x \<Rightarrow> utc_year_month (if 0 \<le> x then \<lfloor>x\<rfloor> else \<lceil>x\<rceil>)
                                  | _ \<Rightarrow> None)
                             | _ \<Rightarrow> None),
       SITE_DOMAIN = ''https://travelio.example'' \<rparr>"

text \<open>A provider that answers every creation with the same URL and knows two sessions: a
  paid one for the booking with id 1, and an unpaid one.\<close>

definition paid_session :: session where
  "paid_session =
     \<lparr> payment_intent = Some ''pi_1'',
       amount_total = Some 10000,
       currency = Some ''usd'',
       metadata = Some [''bookingId'' \<mapsto> JStr ''000000000000000000000001'',
                        ''tourId'' \<mapsto> JStr ''t1'',
                        ''userEmail'' \<mapsto> JStr ''a@x.org''],
       payment_status = ''paid'',
       customer_email = Some ''a@x.org'' \<rparr>"

definition unpaid_session :: session where
  "unpaid_session = paid_session\<lparr>payment_intent := Some ''pi_2'', payment_status := ''unpaid''\<rparr>"

definition demo_stripe :: stripe where
  "demo_stripe =
     \<lparr> sessions_create = (\<lambda>rq. Some ''https://checkout.example/c/1''),
       sessions_retrieve = (\<lambda>sid. if sid = ''cs_paid'' then Some paid_session
                                   else if sid = ''cs_unpaid'' then Some unpaid_session
                                   else None) \<rparr>"

definition empty_world :: world where
  "empty_world =
     \<lparr> bookingCollection = [], paymentCollection = [], usersCollection = [],
       next_oid = 1, stripe_calls = [] \<rparr>"

text \<open>A booking as \<^verbatim>\<open>POST /bookings\<close> stores it, a state holding one booking, and the checkout
  request for the booking with id 1.\<close>

definition booking1 :: doc where
  "booking1 =
     [''_id'' \<mapsto> JObjectId 1,
      ''tourId'' \<mapsto> JStr ''t1'',
      ''userEmail'' \<mapsto> JStr ''a@x.org'',
      ''travelDate'' \<mapsto> JStr ''2026-12-24'',
      ''pricePerPerson'' \<mapsto> JNum (Fin 50),
      ''guests'' \<mapsto> JNum (Fin 2),
      ''createdAt'' \<mapsto> JDate 1579046400000,
      ''status'' \<mapsto> JStr ''pending'',
      ''paymentStatus'' \<mapsto> JStr ''unpaid'']"

definition world_of :: "doc \<Rightarrow> world" where
  "world_of b = empty_world\<lparr>bookingCollection := [b], next_oid := 2\<rparr>"

definition request1 :: doc where
  "request1 = [''bookingId'' \<mapsto> JStr ''000000000000000000000001'']"

definition zero_final_booking :: doc where
  "zero_final_booking =
     booking1(''finalPrice'' \<mapsto> JNum (Fin 0), ''originalTotal'' \<mapsto> JNum (Fin 5))"

definition sub_cent_booking :: doc where
  "sub_cent_booking =
     booking1(''finalPrice'' \<mapsto> JNum (Fin 0), ''originalTotal'' \<mapsto> JNum (Fin (1 / 1000)))"

definition admin_user :: doc where
  "admin_user =
     [''_id'' \<mapsto> JObjectId 7,
      ''email'' \<mapsto> JStr ''root@x.org'',
      ''name'' \<mapsto> JStr ''Root'',
      ''role'' \<mapsto> JStr ''admin'']"

definition world_users :: world where
  "world_users = empty_world\<lparr>usersCollection := [admin_user], next_oid := 8\<rparr>"

text \<open>Eight bookings created from January to July 2020, two of them in July.\<close>

definition bookings_2020 :: "doc list" where
  "bookings_2020 =
     map (\<lambda>t. [''createdAt'' \<mapsto> JDate t])
       [1579046400000, 1581724800000, 1584230400000, 1586908800000,
        1589500800000, 1592179200000, 1594771200000, 1595203200000]"

section \<open>The pricing rule as the specification words it\<close>

text \<open>
  The specification prefers "an explicit final price, else an explicit pre-discount total,
  else unit price times guest count, guest count defaulting to 1". Read by its words, a
  pricing field that is present is the one used. This definition follows the
  specification, not the source, and serves only to compare the two.
\<close>

definition stated_price :: "runtime \<Rightarrow> doc \<Rightarrow> jsval" where
  "stated_price rt booking =
     (case booking ''finalPrice'' of
        Some p \<Rightarrow> p
      | None \<Rightarrow>
         (case booking ''originalTotal'' of
            Some t \<Rightarrow> t
          | None \<Rightarrow>
             JNum (js_times rt (get booking ''pricePerPerson'')
                     (case booking ''guests'' of Some g \<Rightarrow> g | None \<Rightarrow> JNum (Fin 1)))))"

section \<open>Auxiliary facts\<close>

lemma floor_rat_numeral:
  "\<lfloor>(numeral a :: rat) / numeral b\<rfloor> = numeral a div numeral b"
  using floor_divide_of_int_eq [of "numeral a" "numeral b", where ?'a = rat] by simp

lemma floor_rat_one: "\<lfloor>(1 :: rat) / numeral b\<rfloor> = 1 div numeral b"
  using floor_divide_of_int_eq [of 1 "numeral b", where ?'a = rat] by simp

subsection \<open>Doubles\<close>

lemma log2_up_bounds: "1 \<le> y \<Longrightarrow> 2 ^ log2_up y \<le> y \<and> y < 2 ^ Suc (log2_up y)"
proof (induction y rule: log2_up.induct)
  case (1 y)
  show ?case
  proof (cases "y < 2")
    case True
    with 1 show ?thesis by (simp add: log2_up.simps [of y])
  next
    case False
    then have "1 \<le> y / 2" by simp
    with 1 False have "2 ^ log2_up (y / 2) \<le> y / 2 \<and> y / 2 < 2 ^ Suc (log2_up (y / 2))"
      by blast
    with False show ?thesis by (simp add: log2_up.simps [of y])
  qed
qed

lemma log2_down_bounds:
  "0 < y \<Longrightarrow> y < 1 \<Longrightarrow> 1 \<le> 2 ^ log2_down y * y \<and> 2 ^ log2_down y * y < 2"
proof (induction y rule: log2_down.induct)
  case (1 y)
  show ?case
  proof (cases "1 \<le> 2 * y")
    case True
    have "log2_down (2 * y) = 0"
      using True by (simp add: log2_down.simps [of "2 * y"])
    with 1 True show ?thesis by (simp add: log2_down.simps [of y])
  next
    case False
    with 1 have "1 \<le> 2 ^ log2_down (2 * y) * (2 * y) \<and> 2 ^ log2_down (2 * y) * (2 * y) < 2"
      by simp
    with 1 show ?thesis by (simp add: log2_down.simps [of y] mult.assoc)
  qed
qed

lemma ilog2_bounds:
  assumes "0 < y"
  shows "2 powi ilog2 y \<le> y \<and> y < 2 powi (ilog2 y + 1)"
proof (cases "1 \<le> y")
  case True
  then show ?thesis
    using log2_up_bounds [of y] by (simp add: ilog2_def power_int_add)
next
  case False
  then have y: "y < 1" by simp
  let ?n = "log2_down y"
  have b: "1 \<le> 2 ^ ?n * y \<and> 2 ^ ?n * y < 2"
    using assms y by (rule log2_down_bounds)
  have p: "(0 :: rat) < 2 ^ ?n" by simp
  have "2 powi (- int ?n) = 1 / (2 :: rat) ^ ?n"
    by (simp add: power_int_minus field_simps)
  moreover have "2 powi (- int ?n + 1) = 2 / (2 :: rat) ^ ?n"
    using power_int_diff [of "2 :: rat" 1 "int ?n"] by (simp add: add.commute)
  moreover have "1 / 2 ^ ?n \<le> y" "y < 2 / 2 ^ ?n"
    using b p by (simp_all add: field_simps)
  ultimately show ?thesis
    using False by (simp add: ilog2_def)
qed

lemma pow2_less: "(2 :: rat) powi a \<le> y \<Longrightarrow> y < 2 powi b \<Longrightarrow> a < b"
proof (rule ccontr)
  assume "2 powi a \<le> y" and "y < 2 powi b" and "\<not> a < b"
  then have "(2 :: rat) powi b \<le> 2 powi a"
    by (intro power_int_increasing) simp_all
  with \<open>2 powi a \<le> y\<close> \<open>y < 2 powi b\<close> show False by simp
qed

lemma round_half_even_of_int: "round_half_even (of_int k) = k"
  by (simp add: round_half_even_def)

lemma round_half_even_ge: "of_int k - 1 / 2 < y \<Longrightarrow> k \<le> round_half_even y"
  unfolding round_half_even_def Let_def by (simp split: if_splits) linarith+

text \<open>Rounding does not go below a power of two in the normal range.\<close>

lemma round_mag_ge_pow2:
  assumes "2 powi k \<le> y" and "- 1022 \<le> k"
  shows "2 powi k \<le> round_mag y"
proof -
  have "(0 :: rat) < 2 powi k" by simp
  with assms(1) have y: "0 < y" by linarith
  let ?i = "ilog2 y"
  have b: "2 powi ?i \<le> y" "y < 2 powi (?i + 1)"
    using ilog2_bounds [OF y] by simp_all
  have "k < ?i + 1"
    using assms(1) b(2) by (rule pow2_less)
  then have ki: "k \<le> ?i" by simp
  then have e: "max (?i - 52) (- 1074) = ?i - 52"
    using assms(2) by simp
  have split: "(2 :: rat) powi ?i = 2 ^ 52 * 2 powi (?i - 52)"
    using power_int_add [of "2 :: rat" 52 "?i - 52"] by simp
  have q: "(0 :: rat) < 2 powi (?i - 52)" by simp
  define z where "z = y / 2 powi (?i - 52)"
  have "2 ^ 52 * 2 powi (?i - 52) \<le> y"
    using b(1) split by simp
  then have "(2 :: rat) ^ 52 \<le> z"
    using q by (simp add: z_def pos_le_divide_eq)
  then have "of_int (2 ^ 52) - 1 / 2 < z"
    by simp
  then have "2 ^ 52 \<le> round_half_even z"
    by (rule round_half_even_ge)
  then have "(2 :: rat) ^ 52 \<le> of_int (round_half_even z)"
    by (metis of_int_le_iff of_int_numeral of_int_power)
  then have "(2 :: rat) ^ 52 * 2 powi (?i - 52) \<le> of_int (round_half_even z) * 2 powi (?i - 52)"
    using q by (simp only: mult_le_cancel_right_pos)
  then have "2 ^ 52 * 2 powi (?i - 52) \<le> round_mag y"
    by (simp only: round_mag_def e z_def Let_def)
  moreover have "(2 :: rat) powi k \<le> 2 powi ?i"
    using ki by (intro power_int_increasing) simp_all
  ultimately show ?thesis
    using split by simp
qed

text \<open>An integer below \<open>2 ^ 53\<close> is a double.\<close>

lemma round_mag_int:
  assumes "0 < k" and "k < 2 ^ 53"
  shows "round_mag (of_int k) = of_int k"
proof -
  let ?y = "of_int k :: rat"
  let ?i = "ilog2 ?y"
  have y: "0 < ?y" using assms(1) by simp
  have b: "2 powi ?i \<le> ?y" "?y < 2 powi (?i + 1)"
    using ilog2_bounds [OF y] by simp_all
  have "(2 :: rat) powi 0 \<le> ?y"
    using assms(1) by simp
  then have "0 < ?i + 1"
    using b(2) by (rule pow2_less)
  moreover have "?y < 2 powi 53"
    using assms(2) by (metis of_int_less_iff of_int_numeral of_int_power power_int_numeral)
  with b(1) have "?i < 53" by (rule pow2_less)
  ultimately have i: "0 \<le> ?i" "?i \<le> 52" by simp_all
  then have e: "max (?i - 52) (- 1074) = ?i - 52" by simp
  define n where "n = nat (52 - ?i)"
  have "?i - 52 = - int n" using i by (simp add: n_def)
  then have p: "(2 :: rat) powi (?i - 52) = 1 / 2 ^ n"
    by (simp add: power_int_minus_divide)
  have "?y / (1 / 2 ^ n) = of_int (k * 2 ^ n)" by simp
  then have "round_half_even (?y / (1 / 2 ^ n)) = k * 2 ^ n"
    by (simp only: round_half_even_of_int)
  then show ?thesis
    by (simp add: round_mag_def e p)
qed

lemma round_double_int:
  assumes "0 < k" and "k < 2 ^ 53"
  shows "round_double (of_int k) = Fin (of_int k)"
proof -
  have "(of_int k :: rat) < 2 ^ 1024"
  proof -
    have "k < 2 ^ 1024" using assms(2) by simp
    then show ?thesis
      by (metis of_int_less_iff of_int_numeral of_int_power)
  qed
  then show ?thesis
    using assms by (simp add: round_double_def round_mag_int)
qed

lemma round_double_numeral:
  "(numeral n :: int) < 2 ^ 53 \<Longrightarrow> round_double (numeral n) = Fin (numeral n)"
  using round_double_int [of "numeral n"] by simp

lemma round_double_0: "round_double 0 = Fin 0"
  by (simp add: round_double_def)

lemma round_double_not_NaN: "round_double x \<noteq> NaN"
  by (simp add: round_double_def)

lemma round_double_lower:
  assumes "0 < y" and "c \<le> round_mag y"
  shows "round_double y = Infinity True \<or> (\<exists>r. round_double y = Fin r \<and> c \<le> r)"
  using assms by (simp add: round_double_def)

lemma round_double_nonzero:
  assumes "1 \<le> \<bar>x\<bar>"
  shows "round_double x \<noteq> Fin 0"
proof -
  have "2 powi 0 \<le> round_mag \<bar>x\<bar>"
    using assms by (intro round_mag_ge_pow2) simp_all
  then have "0 < round_mag \<bar>x\<bar>" by simp
  moreover have "x \<noteq> 0" using assms by auto
  ultimately show ?thesis
    by (simp add: round_double_def sgn_if)
qed

lemma round_half_even_le: "y \<le> of_int k \<Longrightarrow> round_half_even y \<le> k"
  unfolding round_half_even_def Let_def by (simp split: if_splits) linarith+

text \<open>Rounding leaves a double as it is: a number computed by the program is not changed
  when it is read as a number again.\<close>

lemma round_mag_repr:
  assumes "0 < m" and "m < 2 ^ 53" and "- 1074 \<le> e"
  shows "round_mag (of_int m * 2 powi e) = of_int m * 2 powi e"
proof -
  define y :: rat where "y = of_int m * 2 powi e"
  let ?i = "ilog2 y"
  have y: "0 < y" using assms(1) by (simp add: y_def)
  have b: "2 powi ?i \<le> y" "y < 2 powi (?i + 1)"
    using ilog2_bounds [OF y] by simp_all
  have "(of_int m :: rat) < 2 ^ 53"
    using assms(2) by (metis of_int_less_iff of_int_numeral of_int_power)
  then have "y < 2 ^ 53 * 2 powi e"
    by (simp add: y_def)
  also have "\<dots> = 2 powi (53 + e)"
    using power_int_add [of "2 :: rat" 53 e] by simp
  finally have "?i < 53 + e"
    using b(1) pow2_less by blast
  then have le: "max (?i - 52) (- 1074) \<le> e"
    using assms(3) by simp
  define e' where "e' = max (?i - 52) (- 1074)"
  define n where "n = nat (e - e')"
  have "e = int n + e'" using le by (simp add: n_def e'_def)
  then have p: "(2 :: rat) powi e = 2 ^ n * 2 powi e'"
    using power_int_add [of "2 :: rat" "int n" e'] by simp
  have "y / 2 powi e' = of_int (m * 2 ^ n)"
    by (simp add: y_def p)
  then have "round_half_even (y / 2 powi e') = m * 2 ^ n"
    by (simp only: round_half_even_of_int)
  then have "round_mag y = of_int (m * 2 ^ n) * 2 powi e'"
    by (simp only: round_mag_def Let_def e'_def)
  then show ?thesis
    unfolding y_def [symmetric] by (simp add: y_def p)
qed

lemma round_mag_shape:
  assumes "0 < y"
  shows "\<exists>m e. round_mag y = of_int m * 2 powi e \<and> 0 \<le> m \<and> m \<le> 2 ^ 53 \<and> - 1074 \<le> e"
proof -
  let ?i = "ilog2 y"
  define e where "e = max (?i - 52) (- 1074)"
  define z where "z = y / 2 powi e"
  have b: "y < 2 powi (?i + 1)"
    using ilog2_bounds [OF assms] by simp
  have "(2 :: rat) powi (?i + 1) \<le> 2 powi (53 + e)"
    by (intro power_int_increasing) (simp_all add: e_def)
  also have "\<dots> = 2 ^ 53 * 2 powi e"
    using power_int_add [of "2 :: rat" 53 e] by simp
  finally have "y < 2 ^ 53 * 2 powi e" using b by simp
  moreover have q: "(0 :: rat) < 2 powi e" by simp
  ultimately have "z < 2 ^ 53"
    by (simp add: z_def pos_divide_less_eq)
  then have "z \<le> of_int (2 ^ 53)" by simp
  then have up: "round_half_even z \<le> 2 ^ 53"
    by (rule round_half_even_le)
  have "0 < z" using assms q by (simp add: z_def)
  then have "of_int 0 - 1 / 2 < z" by simp
  then have lo: "0 \<le> round_half_even z"
    by (rule round_half_even_ge)
  have "round_mag y = of_int (round_half_even z) * 2 powi e"
    by (simp only: round_mag_def Let_def e_def z_def)
  moreover have "- 1074 \<le> e" by (simp add: e_def)
  ultimately show ?thesis using up lo by blast
qed

lemma round_mag_idem:
  assumes "0 < y"
  shows "round_mag y = 0 \<or> round_mag (round_mag y) = round_mag y"
proof -
  obtain m e where r: "round_mag y = of_int m * 2 powi e"
    and m: "0 \<le> m" "m \<le> 2 ^ 53" and e: "- 1074 \<le> e"
    using round_mag_shape [OF assms] by blast
  consider "m = 0" | "0 < m" "m < 2 ^ 53" | "m = 2 ^ 53"
    using m by linarith
  then show ?thesis
  proof cases
    case 1
    then show ?thesis by (simp add: r)
  next
    case 2
    then show ?thesis using e by (simp add: r round_mag_repr)
  next
    case 3
    have "of_int m * (2 :: rat) powi e = of_int (2 ^ 52) * 2 powi (e + 1)"
      using power_int_add [of "2 :: rat" e 1] by (simp add: 3)
    moreover have "round_mag (of_int (2 ^ 52) * 2 powi (e + 1)) = of_int (2 ^ 52) * 2 powi (e + 1)"
      using e by (intro round_mag_repr) simp_all
    ultimately have "round_mag (of_int m * 2 powi e) = of_int m * 2 powi e"
      by (simp only:)
    then show ?thesis by (simp add: r)
  qed
qed

lemma round_double_idem: "to_double (round_double x) = round_double x"
proof (cases "x = 0 \<or> 2 ^ 1024 \<le> round_mag \<bar>x\<bar>")
  case True
  then show ?thesis by (auto simp: round_double_def)
next
  case False
  define r where "r = round_mag \<bar>x\<bar>"
  have x: "x \<noteq> 0" and small: "\<not> 2 ^ 1024 \<le> r"
    using False by (auto simp: r_def)
  have rd: "round_double x = Fin (sgn x * r)"
    using False by (simp add: round_double_def r_def)
  have ax: "0 < \<bar>x\<bar>" using x by simp
  have re: "r = 0 \<or> round_mag r = r"
    unfolding r_def using ax by (rule round_mag_idem)
  obtain m e where "r = of_int m * 2 powi e" "0 \<le> m"
    using round_mag_shape [OF ax] r_def by blast
  then have nonneg: "0 \<le> r" by simp
  have "round_double (sgn x * r) = Fin (sgn x * r)"
  proof (cases "r = 0")
    case True
    then show ?thesis by (simp add: round_double_def)
  next
    case False
    with nonneg have pos: "0 < r" by simp
    with re have idem: "round_mag r = r" by simp
    have "\<bar>sgn x * r\<bar> = r"
      using x pos by (simp add: abs_mult)
    moreover have "sgn (sgn x * r) = sgn x"
      using x pos by (simp add: sgn_mult)
    moreover have "sgn x * r \<noteq> 0"
      using x pos by (simp add: sgn_if)
    ultimately show ?thesis
      using small idem by (simp add: round_double_def)
  qed
  then show ?thesis by (simp add: rd)
qed

lemma to_double_num_times: "to_double (num_times a b) = num_times a b"
  by (cases a; cases b) (simp_all add: round_double_idem)

lemma to_double_idem: "to_double (to_double n) = to_double n"
  by (cases n) (simp_all add: round_double_idem)

text \<open>A number of at least 0.005 is held as a double of at least 0.005: in its binade the
  doubles are the multiples of \<open>2 ^ -60\<close>, and 0.005 lies closer to the one above it.\<close>

lemma round_mag_ge_half_cent:
  assumes "1 / 200 \<le> y"
  shows "1 / 200 \<le> round_mag y"
proof (cases "y < 2 powi (- 7)")
  case False
  then have "2 powi (- 7) \<le> round_mag y"
    by (intro round_mag_ge_pow2) simp_all
  then show ?thesis by simp
next
  case True
  have y: "0 < y" using assms by simp
  let ?i = "ilog2 y"
  have b: "2 powi ?i \<le> y" "y < 2 powi (?i + 1)"
    using ilog2_bounds [OF y] by simp_all
  have "?i < - 7"
    using b(1) True by (rule pow2_less)
  moreover have "(2 :: rat) powi (- 8) \<le> y"
    using assms by simp
  then have "- 8 < ?i + 1"
    using b(2) by (rule pow2_less)
  ultimately have i: "?i = - 8" by simp
  have e: "max (?i - 52) (- 1074) = - 60" by (simp add: i)
  have p: "(2 :: rat) powi (- 60) = 1 / 2 ^ 60"
    by (simp add: power_int_minus_divide)
  define z where "z = y / (1 / 2 ^ 60)"
  have "of_int 5764607523034235 - 1 / 2 < z"
    using assms by (simp add: z_def)
  then have "5764607523034235 \<le> round_half_even z"
    by (rule round_half_even_ge)
  then have "(5764607523034235 :: rat) \<le> of_int (round_half_even z)"
    by (metis of_int_le_iff of_int_numeral)
  then have "(1 :: rat) / 200 \<le> of_int (round_half_even z) * (1 / 2 ^ 60)"
    by simp
  then show ?thesis
    by (simp only: round_mag_def e p z_def Let_def)
qed

text \<open>The doubles that 0.001 and 0.001 times 100 are.\<close>

lemma round_double_milli: "round_double (1 / 1000) = Fin (4611686018427388 / 2 ^ 62)"
  by (simp add: round_double_def round_mag_def ilog2_def log2_down.simps round_half_even_def
        Let_def floor_rat_numeral power_int_minus_divide)

lemma round_double_milli_100:
  "num_times (round_double (1 / 1000)) (Fin 100) = Fin (7205759403792794 / 2 ^ 56)"
  by (simp add: round_double_milli)
     (simp add: round_double_def round_mag_def ilog2_def log2_down.simps round_half_even_def
        Let_def floor_rat_numeral power_int_minus_divide)

lemma truthy_zero: "\<not> truthy (JNum (Fin 0))"
  by (simp add: round_double_0)

lemma truthy_Math_round:
  "truthy (JNum (Math_round p)) \<longleftrightarrow> Math_round p \<noteq> NaN \<and> Math_round p \<noteq> Fin 0"
proof (cases p)
  case NaN
  then show ?thesis by simp
next
  case (Infinity s)
  then show ?thesis by simp
next
  case (Fin x)
  show ?thesis
  proof (cases "\<lfloor>x + 1 / 2\<rfloor> = 0")
    case True
    then show ?thesis by (simp add: Fin round_double_0)
  next
    case False
    then have "1 \<le> \<bar>\<lfloor>x + 1 / 2\<rfloor>\<bar>" by linarith
    then have "(1 :: rat) \<le> of_int \<bar>\<lfloor>x + 1 / 2\<rfloor>\<bar>"
      by (simp only: of_int_1_le_iff)
    then have "1 \<le> \<bar>of_int \<lfloor>x + 1 / 2\<rfloor> :: rat\<bar>"
      by simp
    then have "round_double (of_int \<lfloor>x + 1 / 2\<rfloor>) \<noteq> Fin 0"
      by (rule round_double_nonzero)
    then show ?thesis
      using False round_double_not_NaN [of "of_int \<lfloor>x + 1 / 2\<rfloor>"]
      by (cases "round_double (of_int \<lfloor>x + 1 / 2\<rfloor>)") (simp_all add: Fin)
  qed
qed

subsection \<open>The store\<close>

lemma findOne_None_iff: "findOne q c = None \<longleftrightarrow> \<not> list_ex q c"
  by (auto simp: findOne_def find_None_iff list_ex_iff)

lemma findOne_None_filter: "findOne q c = None \<longleftrightarrow> filter q c = []"
  by (auto simp: findOne_def find_None_iff filter_empty_conv)

lemma findOne_Some_filter: "findOne q c = Some d \<Longrightarrow> filter q c \<noteq> []"
  by (auto simp: findOne_def find_Some_iff filter_empty_conv)

lemma findOne_append_new: "findOne q c = None \<Longrightarrow> q d \<Longrightarrow> findOne q (c @ [d]) = Some d"
  by (induction c) (auto simp: findOne_def split: if_splits)

lemma findOne_split:
  "findOne q c = Some d \<Longrightarrow> \<exists>pre post. c = pre @ d # post \<and> q d \<and> (\<forall>e\<in>set pre. \<not> q e)"
proof (induction c)
  case Nil
  then show ?case by (simp add: findOne_def)
next
  case (Cons a c)
  show ?case
  proof (cases "q a")
    case True
    with Cons.prems have "a = d" by (simp add: findOne_def)
    with True have "a # c = [] @ d # c \<and> q d \<and> (\<forall>e\<in>set []. \<not> q e)" by simp
    then show ?thesis by blast
  next
    case False
    with Cons.prems have "findOne q c = Some d" by (simp add: findOne_def)
    then obtain pre post where "c = pre @ d # post" "q d" "\<forall>e\<in>set pre. \<not> q e"
      using Cons.IH by blast
    with False have "a # c = (a # pre) @ d # post \<and> q d \<and> (\<forall>e\<in>set (a # pre). \<not> q e)"
      by simp
    then show ?thesis by blast
  qed
qed

lemma findOne_first:
  "\<forall>e\<in>set pre. \<not> q e \<Longrightarrow> q d \<Longrightarrow> findOne q (pre @ d # post) = Some d"
  by (induction pre) (auto simp: findOne_def)

lemma updateOne_first:
  "\<forall>e\<in>set pre. \<not> q e \<Longrightarrow> q d \<Longrightarrow>
     updateOne q upd (pre @ d # post) = pre @ (d ++ upd) # post"
  by (induction pre) auto

lemma updateOne_frame:
  "upd k = None \<Longrightarrow> map (\<lambda>d. d k) (updateOne q upd c) = map (\<lambda>d. d k) c"
  by (induction c) (auto simp: map_add_def)

lemma insertOne_appends:
  "\<exists>e. fst (snd (insertOne d c n)) = c @ [e] \<and> (\<forall>k. k \<noteq> ''_id'' \<longrightarrow> e k = d k)"
  by (simp add: insertOne_def split: option.splits)

lemma truthy_matches: "truthy v \<Longrightarrow> matches k v d = (d k = Some v)"
  by (cases v) (auto simp: matches_def)

lemma matches_map_add: "upd k = None \<Longrightarrow> matches k v (d ++ upd) = matches k v d"
  by (simp add: matches_def map_add_def)

subsection \<open>The reconciler\<close>

lemma payment_doc_id: "payment_doc now s ''_id'' = None"
  by (simp add: payment_doc_def Let_def)

lemma payment_doc_transactionId:
  "payment_doc now s ''transactionId'' = Some (nullable JStr (payment_intent s))"
  by (simp add: payment_doc_def Let_def)

lemma insertOne_payment_doc:
  "insertOne (payment_doc now s) c n =
     (JObjectId n, c @ [(payment_doc now s)(''_id'' \<mapsto> JObjectId n)], Suc n)"
  by (simp add: insertOne_def payment_doc_id)

lemma matches_payment_doc:
  "matches ''transactionId'' (nullable JStr (payment_intent s))
     ((payment_doc now s)(''_id'' \<mapsto> i))"
  by (simp add: matches_def payment_doc_transactionId)

lemma booking_paid_update_id: "booking_paid_update rt now t ''_id'' = None"
  by (simp add: booking_paid_update_def)

lemma booking_success_existing:
  assumes "sid \<noteq> []"
    and "sessions_retrieve sp sid = Some s"
    and "findOne (matches ''transactionId'' (nullable JStr (payment_intent s)))
           (paymentCollection w) = Some p"
  shows "booking_success rt sp now (Some sid) w =
           ((200, AlreadyExists (nullable JStr (payment_intent s)) p),
            w\<lparr>stripe_calls := stripe_calls w @ [Retrieve sid]\<rparr>)"
  using assms by (simp add: booking_success_def Let_def)

lemma booking_success_paid_payments:
  assumes "sid \<noteq> []"
    and "sessions_retrieve sp sid = Some s"
    and "payment_status s = ''paid''"
    and "findOne (matches ''transactionId'' (nullable JStr (payment_intent s)))
           (paymentCollection w) = None"
  shows "paymentCollection (snd (booking_success rt sp now (Some sid) w)) =
           paymentCollection w @ [(payment_doc now s)(''_id'' \<mapsto> JObjectId (next_oid w))]"
  using assms
  by (simp add: booking_success_def Let_def insertOne_payment_doc split: option.splits)

subsection \<open>The checkout initiator\<close>

lemma cents_NaN: "cents NaN = JNum (Fin 0)"
  by (simp add: cents_def js_or_def)

lemma cents_eq:
  "cents n = (if Math_round (num_times n (Fin 100)) = NaN then JNum (Fin 0)
              else JNum (Math_round (num_times n (Fin 100))))"
  by (auto simp: cents_def js_or_def truthy_Math_round simp del: truthy.simps)

lemma truthy_cents: "truthy (cents n) \<longleftrightarrow> cents n \<noteq> JNum (Fin 0)"
  using truthy_zero by (auto simp: cents_def js_or_def truthy_Math_round simp del: truthy.simps)

text \<open>The charge for a number of at least 0.005: at least one cent.\<close>

lemma cents_half_cent:
  assumes "1 / 200 \<le> x"
  shows "\<exists>a. cents (round_double x) = JNum a
           \<and> a = Math_round (num_times (round_double x) (Fin 100))
           \<and> (a = Infinity True \<or> (\<exists>k. a = Fin (of_int k) \<and> 1 \<le> k))"
proof -
  have x: "0 < x" using assms by simp
  have "1 / 200 \<le> round_mag x"
    using assms by (rule round_mag_ge_half_cent)
  with x consider "round_double x = Infinity True"
    | v where "round_double x = Fin v" "1 / 200 \<le> v"
    using round_double_lower by blast
  then have "Math_round (num_times (round_double x) (Fin 100)) = Infinity True
      \<or> (\<exists>k. Math_round (num_times (round_double x) (Fin 100)) = Fin (of_int k) \<and> 1 \<le> k)"
  proof cases
    case 1
    then show ?thesis by simp
  next
    case 2
    have "2 powi (- 1) \<le> v * 100"
      using 2(2) by simp
    then have "2 powi (- 1) \<le> round_mag (v * 100)"
      by (intro round_mag_ge_pow2) simp_all
    moreover have "0 < v * 100" using 2(2) by simp
    ultimately consider "round_double (v * 100) = Infinity True"
      | r where "round_double (v * 100) = Fin r" "2 powi (- 1) \<le> r"
      using round_double_lower by blast
    then show ?thesis
    proof cases
      case 1
      then show ?thesis by (simp add: 2(1))
    next
      case 2
      from 2(2) have "1 \<le> r + 1 / 2" by simp
      then have "1 \<le> \<lfloor>r + 1 / 2\<rfloor>" by (simp add: le_floor_iff)
      then show ?thesis
        using 2(1) \<open>round_double x = Fin v\<close> by simp
    qed
  qed
  then show ?thesis
    by (auto simp: cents_eq)
qed

lemma create_checkout_session_found:
  assumes "truthy (get reqbody ''bookingId'')"
    and "ObjectId rt (get reqbody ''bookingId'') = Some oid"
    and "findOne (matches ''_id'' (JObjectId oid)) (bookingCollection w) = Some booking"
  shows "create_checkout_session rt sp reqbody w =
     (if checkout_amount rt booking = JNum (Fin 0)
      then ((400, Message ''Invalid booking amount''), w)
      else ((case sessions_create sp
                    (checkout_session_request rt booking (checkout_amount rt booking)) of
               None \<Rightarrow> (500, Message ''Failed to create checkout session'')
             | Some url \<Rightarrow> (200, CheckoutUrl url)),
            w\<lparr>stripe_calls := stripe_calls w @
                 [Create (checkout_session_request rt booking (checkout_amount rt booking))]\<rparr>))"
proof -
  have "truthy (checkout_amount rt booking) \<longleftrightarrow> checkout_amount rt booking \<noteq> JNum (Fin 0)"
    by (simp add: checkout_amount_def truthy_cents)
  then show ?thesis
    using assms by (simp add: create_checkout_session_def Let_def split: option.splits)
qed

subsection \<open>The examples\<close>

text \<open>The charge for the prices written 1.005, 0.015 and 0.145: the products with 100 are
  the doubles 100.49999999999999, 1.5 and 14.499999999999998.\<close>

lemma cents_examples:
  "cents (to_double (Fin (201 / 200))) = JNum (Fin 100)"
  "cents (to_double (Fin (15 / 1000))) = JNum (Fin 2)"
  "cents (to_double (Fin (145 / 1000))) = JNum (Fin 14)"
  by (simp_all add: cents_eq round_double_def round_mag_def ilog2_def log2_up.simps
        log2_down.simps round_half_even_def Let_def floor_rat_numeral floor_rat_one
        power_int_minus_divide)

lemma demo_ObjectId_1: "ObjectId demo_runtime (JStr ''000000000000000000000001'') = Some 1"
  by code_simp

lemma demo_ObjectId_2: "ObjectId demo_runtime (JStr ''000000000000000000000002'') = Some 2"
  by code_simp

lemma demo_ObjectId_abc: "ObjectId demo_runtime (JStr ''abc'') = None"
  by (simp add: demo_runtime_def)

lemma request1_bookingId:
  "truthy (get request1 ''bookingId'')"
  "ObjectId demo_runtime (get request1 ''bookingId'') = Some 1"
  by (simp_all add: request1_def get_def demo_ObjectId_1)

lemma demo_sessions_create:
  "sessions_create demo_stripe rq = Some ''https://checkout.example/c/1''"
  by (simp add: demo_stripe_def)

lemma demo_sessions_retrieve:
  "sessions_retrieve demo_stripe ''cs_paid'' = Some paid_session"
  "sessions_retrieve demo_stripe ''cs_unpaid'' = Some unpaid_session"
  by (simp_all add: demo_stripe_def)

lemma paid_session_fields:
  "nullable JStr (payment_intent paid_session) = JStr ''pi_1''"
  "payment_status paid_session = ''paid''"
  "nullable JStr (payment_intent unpaid_session) = JStr ''pi_2''"
  "payment_status unpaid_session = ''unpaid''"
  by (simp_all add: paid_session_def unpaid_session_def nullable_def)

lemma world_of_fields:
  "bookingCollection (world_of b) = [b]"
  "paymentCollection (world_of b) = []"
  "usersCollection (world_of b) = []"
  "next_oid (world_of b) = 2"
  "stripe_calls (world_of b) = []"
  by (simp_all add: world_of_def empty_world_def)

lemma findOne_world_of:
  "b ''_id'' = Some (JObjectId i) \<Longrightarrow>
     findOne (matches ''_id'' (JObjectId i)) (bookingCollection (world_of b)) = Some b"
  by (simp add: findOne_def world_of_fields matches_def)

section \<open>Booking creation: required fields\<close>

text \<open>
  C5. A booking-creation request that is missing \<open>tourId\<close>, \<open>userEmail\<close> or \<open>travelDate\<close> is
  answered with status 400 (BadRequest), and the state, the Booking store included, is
  returned as it was: no document is written.
\<close>

theorem post_bookings_missing_field:
  assumes "booking ''tourId'' = None \<or> booking ''userEmail'' = None \<or> booking ''travelDate'' = None"
  shows "post_bookings now booking w =
           ((400, Message ''Missing required fields: tourId, userEmail, and travelDate are required''), w)"
  using assms by (auto simp: post_bookings_def get_def)

text \<open>A request without \<open>travelDate\<close>.\<close>

theorem post_bookings_missing_field_witness:
  "post_bookings 1793629812345 [''tourId'' \<mapsto> JStr ''t1'', ''userEmail'' \<mapsto> JStr ''a@x.org'']
     empty_world =
     ((400, Message ''Missing required fields: tourId, userEmail, and travelDate are required''),
      empty_world)"
  using post_bookings_missing_field
          [of "[''tourId'' \<mapsto> JStr ''t1'', ''userEmail'' \<mapsto> JStr ''a@x.org'']"
              1793629812345 empty_world]
  by simp

section \<open>Payment reconciler\<close>

text \<open>
  C3. For a session that the provider reports with a status other than \<open>paid\<close> and whose
  transaction id has no Payment record, the reconciler answers "Payment not completed"
  (NotPaid) and leaves the Payment store and the Booking store unchanged: the state after
  the call differs from the state before only by the logged provider call.
\<close>

theorem booking_success_not_paid:
  assumes "sid \<noteq> []"
    and "sessions_retrieve sp sid = Some s"
    and "payment_status s \<noteq> ''paid''"
    and "findOne (matches ''transactionId'' (nullable JStr (payment_intent s)))
           (paymentCollection w) = None"
  shows "booking_success rt sp now (Some sid) w =
           ((200, PaymentNotCompleted), w\<lparr>stripe_calls := stripe_calls w @ [Retrieve sid]\<rparr>)"
  using assms by (simp add: booking_success_def Let_def)

text \<open>The unpaid session, on a state with one unpaid booking.\<close>

theorem booking_success_not_paid_witness:
  "booking_success demo_runtime demo_stripe 1793629812345 (Some ''cs_unpaid'') (world_of booking1) =
     ((200, PaymentNotCompleted),
      (world_of booking1)\<lparr>stripe_calls := stripe_calls (world_of booking1) @ [Retrieve ''cs_unpaid'']\<rparr>)"
  using booking_success_not_paid
          [of "''cs_unpaid''" demo_stripe unpaid_session "world_of booking1" demo_runtime 1793629812345]
  by (simp add: demo_sessions_retrieve paid_session_fields world_of_fields findOne_def)

text \<open>
  C1. Idempotence of reconciliation. For a session that the provider reports as \<open>paid\<close>,
  in a state that holds at most one Payment for the session's transaction id, two calls
  of the reconciler leave exactly one Payment document with that transaction id; the second
  call answers "already exists" (AlreadyRecorded) with the same transaction id and the
  Payment record found in the store, and writes nothing to the Payment, Booking or User
  stores.
\<close>

theorem booking_success_idempotent:
  assumes sid: "sid \<noteq> []"
    and ret: "sessions_retrieve sp sid = Some s"
    and paid: "payment_status s = ''paid''"
    and one: "length (filter (matches ''transactionId'' (nullable JStr (payment_intent s)))
                (paymentCollection w)) \<le> 1"
    and first: "booking_success rt sp now1 (Some sid) w = (r1, w1)"
    and second: "booking_success rt sp now2 (Some sid) w1 = (r2, w2)"
  shows "length (filter (matches ''transactionId'' (nullable JStr (payment_intent s)))
           (paymentCollection w2)) = 1
       \<and> (\<exists>p. r2 = (200, AlreadyExists (nullable JStr (payment_intent s)) p)
              \<and> findOne (matches ''transactionId'' (nullable JStr (payment_intent s)))
                   (paymentCollection w1) = Some p)
       \<and> paymentCollection w2 = paymentCollection w1
       \<and> bookingCollection w2 = bookingCollection w1
       \<and> usersCollection w2 = usersCollection w1"
proof -
  let ?q = "matches ''transactionId'' (nullable JStr (payment_intent s))"
  have w1: "\<exists>p. findOne ?q (paymentCollection w1) = Some p
              \<and> length (filter ?q (paymentCollection w1)) = 1"
  proof (cases "findOne ?q (paymentCollection w)")
    case None
    then have empty: "filter ?q (paymentCollection w) = []"
      by (simp add: findOne_None_filter)
    have pc: "paymentCollection w1 =
        paymentCollection w @ [(payment_doc now1 s)(''_id'' \<mapsto> JObjectId (next_oid w))]"
      using booking_success_paid_payments [OF sid ret paid None, of rt now1] first by simp
    show ?thesis
      using None empty by (simp add: pc findOne_append_new matches_payment_doc)
  next
    case (Some p)
    then have "w1 = w\<lparr>stripe_calls := stripe_calls w @ [Retrieve sid]\<rparr>"
      using booking_success_existing [OF sid ret Some, of rt now1] first by simp
    moreover have "filter ?q (paymentCollection w) \<noteq> []"
      using Some by (rule findOne_Some_filter)
    then have "length (filter ?q (paymentCollection w)) = 1"
      using one by (cases "filter ?q (paymentCollection w)") auto
    ultimately show ?thesis using Some by simp
  qed
  then obtain p where p: "findOne ?q (paymentCollection w1) = Some p"
    and len: "length (filter ?q (paymentCollection w1)) = 1" by blast
  have "(r2, w2) = ((200, AlreadyExists (nullable JStr (payment_intent s)) p),
            w1\<lparr>stripe_calls := stripe_calls w1 @ [Retrieve sid]\<rparr>)"
    using booking_success_existing [OF sid ret p, of rt now2] second by simp
  then show ?thesis using p len by simp
qed

text \<open>The paid session confirmed twice, a minute apart, on a state without payments.\<close>

theorem booking_success_idempotent_witness:
  "length (filter (matches ''transactionId'' (JStr ''pi_1''))
     (paymentCollection (snd (booking_success demo_runtime demo_stripe 1793629872345 (Some ''cs_paid'')
        (snd (booking_success demo_runtime demo_stripe 1793629812345 (Some ''cs_paid'')
           (world_of booking1))))))) = 1"
  using booking_success_idempotent
          [where sid = "''cs_paid''" and sp = demo_stripe and s = paid_session
             and w = "world_of booking1" and rt = demo_runtime
             and ?now1.0 = 1793629812345 and ?now2.0 = 1793629872345
             and ?r1.0 = "fst (booking_success demo_runtime demo_stripe 1793629812345
                                 (Some ''cs_paid'') (world_of booking1))"
             and ?w1.0 = "snd (booking_success demo_runtime demo_stripe 1793629812345
                                 (Some ''cs_paid'') (world_of booking1))"
             and ?r2.0 = "fst (booking_success demo_runtime demo_stripe 1793629872345 (Some ''cs_paid'')
                            (snd (booking_success demo_runtime demo_stripe 1793629812345
                                    (Some ''cs_paid'') (world_of booking1))))"
             and ?w2.0 = "snd (booking_success demo_runtime demo_stripe 1793629872345 (Some ''cs_paid'')
                            (snd (booking_success demo_runtime demo_stripe 1793629812345
                                    (Some ''cs_paid'') (world_of booking1))))"]
  by (clarsimp simp: demo_sessions_retrieve paid_session_fields world_of_fields)

text \<open>
  C2. For a paid session whose transaction id has no Payment record and whose
  \<open>metadata.bookingId\<close> is the id of an existing booking \<open>b\<close>, the reconciler appends one new
  Payment document \<open>p\<close> with a fresh id and the session's \<open>bookingId\<close>, \<open>tourId\<close>,
  \<open>userEmail\<close> (the customer's email when the metadata has none), \<open>amount\<close>, \<open>currency\<close>,
  transaction id, \<open>paymentStatus\<close> \<open>paid\<close> and \<open>createdAt\<close> the time of the call, and no
  other field; it replaces \<open>b\<close> in the Booking store by \<open>b'\<close>, which has \<open>paymentStatus\<close>
  \<open>paid\<close>, \<open>status\<close> \<open>confirmed\<close>, the session's transaction id and a new \<open>updatedAt\<close> and agrees
  with \<open>b\<close> on every other field, and answers with \<open>b'\<close> and the id of the new payment.
\<close>

theorem booking_success_confirms_booking:
  assumes sid: "sid \<noteq> []"
    and ret: "sessions_retrieve sp sid = Some s"
    and paid: "payment_status s = ''paid''"
    and new: "findOne (matches ''transactionId'' (nullable JStr (payment_intent s)))
                (paymentCollection w) = None"
    and meta: "metadata s = Some meta"
    and bid: "truthy (get meta ''bookingId'')"
    and oid: "ObjectId rt (get meta ''bookingId'') = Some oid"
    and booking: "findOne (matches ''_id'' (JObjectId oid)) (bookingCollection w) = Some b"
  shows "\<exists>w' b' pre post p.
           booking_success rt sp now (Some sid) w =
             ((200, PaymentConfirmed (nullable JStr (payment_intent s)) (JObjectId (next_oid w))
                      (get meta ''bookingId'') (Some b')), w')
         \<and> paymentCollection w' = paymentCollection w @ [p]
         \<and> p = (payment_doc now s)(''_id'' \<mapsto> JObjectId (next_oid w))
         \<and> dom p = {''_id'', ''bookingId'', ''tourId'', ''userEmail'', ''amount'', ''currency'',
                     ''transactionId'', ''paymentStatus'', ''createdAt''}
         \<and> p ''_id'' = Some (JObjectId (next_oid w))
         \<and> p ''bookingId'' = Some (get meta ''bookingId'')
         \<and> p ''tourId'' = Some (if truthy (get meta ''tourId'') then get meta ''tourId''
                                   else JStr '''')
         \<and> p ''userEmail'' = Some (if truthy (get meta ''userEmail'') then get meta ''userEmail''
                                      else case customer_email s of
                                             None \<Rightarrow> JNull | Some e \<Rightarrow> JStr e)
         \<and> p ''amount'' = Some (case amount_total s of
                                   None \<Rightarrow> JNull | Some n \<Rightarrow> JNum (Fin (of_int n)))
         \<and> p ''currency'' = Some (case currency s of None \<Rightarrow> JNull | Some c \<Rightarrow> JStr c)
         \<and> p ''transactionId'' = Some (case payment_intent s of
                                          None \<Rightarrow> JNull | Some t \<Rightarrow> JStr t)
         \<and> p ''paymentStatus'' = Some (JStr ''paid'')
         \<and> p ''createdAt'' = Some (JDate now)
         \<and> bookingCollection w = pre @ b # post
         \<and> bookingCollection w' = pre @ b' # post
         \<and> (\<forall>e\<in>set pre. \<not> matches ''_id'' (JObjectId oid) e)
         \<and> findOne (matches ''_id'' (JObjectId oid)) (bookingCollection w') = Some b'
         \<and> b' ''paymentStatus'' = Some (JStr ''paid'')
         \<and> b' ''status'' = Some (JStr ''confirmed'')
         \<and> b' ''transactionId'' = Some (nullable JStr (payment_intent s))
         \<and> b' ''updatedAt'' = Some (JStr (toISOString rt now))
         \<and> (\<forall>k. k \<notin> {''paymentStatus'', ''status'', ''transactionId'', ''updatedAt''}
                \<longrightarrow> b' k = b k)"
proof -
  let ?q = "matches ''_id'' (JObjectId oid)"
  let ?upd = "booking_paid_update rt now (nullable JStr (payment_intent s))"
  obtain pre post where split: "bookingCollection w = pre @ b # post"
    and qb: "?q b" and pre: "\<forall>e\<in>set pre. \<not> ?q e"
    using findOne_split [OF booking] by blast
  have qb': "?q (b ++ ?upd)"
    using qb by (simp add: matches_map_add booking_paid_update_id)
  have upd: "updateOne ?q ?upd (bookingCollection w) = pre @ (b ++ ?upd) # post"
    using pre qb by (simp add: split updateOne_first)
  have found: "findOne ?q (pre @ (b ++ ?upd) # post) = Some (b ++ ?upd)"
    using pre qb' by (rule findOne_first)
  have run: "booking_success rt sp now (Some sid) w =
      ((200, PaymentConfirmed (nullable JStr (payment_intent s)) (JObjectId (next_oid w))
               (get meta ''bookingId'') (Some (b ++ ?upd))),
       w\<lparr>stripe_calls := stripe_calls w @ [Retrieve sid],
         paymentCollection :=
           paymentCollection w @ [(payment_doc now s)(''_id'' \<mapsto> JObjectId (next_oid w))],
         next_oid := Suc (next_oid w),
         bookingCollection := pre @ (b ++ ?upd) # post\<rparr>)"
    using sid ret paid new meta bid oid upd found
    by (simp add: booking_success_def Let_def insertOne_payment_doc)
  have fields: "(b ++ ?upd) ''paymentStatus'' = Some (JStr ''paid'')"
    "(b ++ ?upd) ''status'' = Some (JStr ''confirmed'')"
    "(b ++ ?upd) ''transactionId'' = Some (nullable JStr (payment_intent s))"
    "(b ++ ?upd) ''updatedAt'' = Some (JStr (toISOString rt now))"
    "\<forall>k. k \<notin> {''paymentStatus'', ''status'', ''transactionId'', ''updatedAt''}
        \<longrightarrow> (b ++ ?upd) k = b k"
    by (simp_all add: booking_paid_update_def map_add_def)
  let ?p = "(payment_doc now s)(''_id'' \<mapsto> JObjectId (next_oid w))"
  have payment: "dom ?p = {''_id'', ''bookingId'', ''tourId'', ''userEmail'', ''amount'', ''currency'',
                     ''transactionId'', ''paymentStatus'', ''createdAt''}"
    "?p ''_id'' = Some (JObjectId (next_oid w))"
    "?p ''bookingId'' = Some (get meta ''bookingId'')"
    "?p ''tourId'' = Some (if truthy (get meta ''tourId'') then get meta ''tourId'' else JStr '''')"
    "?p ''userEmail'' = Some (if truthy (get meta ''userEmail'') then get meta ''userEmail''
                              else case customer_email s of None \<Rightarrow> JNull | Some e \<Rightarrow> JStr e)"
    "?p ''amount'' = Some (case amount_total s of
                             None \<Rightarrow> JNull | Some n \<Rightarrow> JNum (Fin (of_int n)))"
    "?p ''currency'' = Some (case currency s of None \<Rightarrow> JNull | Some c \<Rightarrow> JStr c)"
    "?p ''transactionId'' = Some (case payment_intent s of None \<Rightarrow> JNull | Some t \<Rightarrow> JStr t)"
    "?p ''paymentStatus'' = Some (JStr ''paid'')"
    "?p ''createdAt'' = Some (JDate now)"
    using meta bid paid by (auto simp: payment_doc_def Let_def js_or_def nullable_def)
  show ?thesis
    using run split pre found fields payment
    by (intro exI [of _ "snd (booking_success rt sp now (Some sid) w)"]
          exI [of _ "b ++ ?upd"] exI [of _ pre] exI [of _ post] exI [of _ ?p]) simp
qed

text \<open>The paid session for the booking with id 1: the booking comes back confirmed and paid,
  with the payment id 2.\<close>

theorem booking_success_confirms_booking_witness:
  "\<exists>w' b'. booking_success demo_runtime demo_stripe 1793629812345 (Some ''cs_paid'') (world_of booking1) =
             ((200, PaymentConfirmed (JStr ''pi_1'') (JObjectId 2)
                      (JStr ''000000000000000000000001'') (Some b')), w')
         \<and> bookingCollection w' = [b']
         \<and> b' ''paymentStatus'' = Some (JStr ''paid'')
         \<and> b' ''status'' = Some (JStr ''confirmed'')
         \<and> b' ''transactionId'' = Some (JStr ''pi_1'')
         \<and> b' ''tourId'' = Some (JStr ''t1'')
         \<and> (\<exists>p. paymentCollection w' = [p]
                \<and> p ''_id'' = Some (JObjectId 2)
                \<and> p ''bookingId'' = Some (JStr ''000000000000000000000001'')
                \<and> p ''tourId'' = Some (JStr ''t1'')
                \<and> p ''userEmail'' = Some (JStr ''a@x.org'')
                \<and> p ''amount'' = Some (JNum (Fin 10000))
                \<and> p ''currency'' = Some (JStr ''usd'')
                \<and> p ''transactionId'' = Some (JStr ''pi_1'')
                \<and> p ''paymentStatus'' = Some (JStr ''paid'')
                \<and> p ''createdAt'' = Some (JDate 1793629812345))"
proof -
  have meta: "metadata paid_session =
      Some [''bookingId'' \<mapsto> JStr ''000000000000000000000001'', ''tourId'' \<mapsto> JStr ''t1'',
            ''userEmail'' \<mapsto> JStr ''a@x.org'']"
    by (simp add: paid_session_def)
  have bid: "get [''bookingId'' \<mapsto> JStr ''000000000000000000000001'', ''tourId'' \<mapsto> JStr ''t1'',
                  ''userEmail'' \<mapsto> JStr ''a@x.org''] ''bookingId'' = JStr ''000000000000000000000001''"
    by (simp add: get_def)
  have found: "findOne (matches ''_id'' (JObjectId 1)) (bookingCollection (world_of booking1))
      = Some booking1"
    by (rule findOne_world_of) (simp add: booking1_def)
  have new: "findOne (matches ''transactionId'' (nullable JStr (payment_intent paid_session)))
      (paymentCollection (world_of booking1)) = None"
    by (simp add: world_of_fields findOne_def)
  obtain w' b' pre post p where
      run: "booking_success demo_runtime demo_stripe 1793629812345 (Some ''cs_paid'') (world_of booking1) =
             ((200, PaymentConfirmed (JStr ''pi_1'') (JObjectId 2)
                      (JStr ''000000000000000000000001'') (Some b')), w')"
    and pay: "paymentCollection w' = [p]"
      "p ''_id'' = Some (JObjectId 2)"
      "p ''bookingId'' = Some (JStr ''000000000000000000000001'')"
      "p ''tourId'' = Some (JStr ''t1'')"
      "p ''userEmail'' = Some (JStr ''a@x.org'')"
      "p ''amount'' = Some (JNum (Fin 10000))"
      "p ''currency'' = Some (JStr ''usd'')"
      "p ''transactionId'' = Some (JStr ''pi_1'')"
      "p ''paymentStatus'' = Some (JStr ''paid'')"
      "p ''createdAt'' = Some (JDate 1793629812345)"
    and old: "[booking1] = pre @ booking1 # post"
    and upd: "bookingCollection w' = pre @ b' # post"
    and fields: "b' ''paymentStatus'' = Some (JStr ''paid'')"
      "b' ''status'' = Some (JStr ''confirmed'')"
      "b' ''transactionId'' = Some (JStr ''pi_1'')"
    and rest: "\<forall>k. k \<notin> {''paymentStatus'', ''status'', ''transactionId'', ''updatedAt''}
                \<longrightarrow> b' k = booking1 k"
    using booking_success_confirms_booking
            [where sid = "''cs_paid''" and sp = demo_stripe and s = paid_session
               and w = "world_of booking1" and rt = demo_runtime and now = 1793629812345
               and oid = 1 and b = booking1,
             OF _ demo_sessions_retrieve(1) paid_session_fields(2) new meta]
    unfolding bid paid_session_fields world_of_fields
    using demo_ObjectId_1 found
    by (auto simp: world_of_fields get_def paid_session_def)
  have "pre = [] \<and> post = []"
    using old by (cases pre) auto
  moreover have "b' ''tourId'' = Some (JStr ''t1'')"
    using rest by (simp add: booking1_def)
  ultimately show ?thesis
    using run upd fields pay by auto
qed

section \<open>Users\<close>

text \<open>
  C8. A profile update leaves the stored \<open>email\<close> and \<open>role\<close> of every user as they were,
  whatever the payload holds for them; it changes only fields of the payload other than
  these two, and \<open>updatedAt\<close>.
\<close>

theorem patch_users_profile_frame:
  assumes "k = ''email'' \<or> k = ''role'' \<or> (reqbody k = None \<and> k \<noteq> ''updatedAt'')"
  shows "map (\<lambda>d. d k) (usersCollection (snd (patch_users_profile now email reqbody w)))
           = map (\<lambda>d. d k) (usersCollection w)"
  using assms by (auto simp: patch_users_profile_def Let_def intro!: updateOne_frame)

text \<open>A payload that asks for another role and another name: the stored role stays.\<close>

theorem patch_users_profile_frame_witness:
  "map (\<lambda>d. d ''role'')
     (usersCollection (snd (patch_users_profile 1793629812345 ''root@x.org''
        [''role'' \<mapsto> JStr ''user'', ''email'' \<mapsto> JStr ''eve@x.org'', ''name'' \<mapsto> JStr ''Eve'']
        world_users)))
   = [Some (JStr ''admin'')]"
  using patch_users_profile_frame
          [of "''role''"
              "[''role'' \<mapsto> JStr ''user'', ''email'' \<mapsto> JStr ''eve@x.org'', ''name'' \<mapsto> JStr ''Eve'']"
              1793629812345 "''root@x.org''" world_users]
  by (simp add: world_users_def empty_world_def admin_user_def)

text \<open>
  C9. A user-save request whose body has no \<open>role\<close> field: when the body has an email, the
  document stored for that email after the call has the role \<open>user\<close>, whatever role a
  document for that email had before (the upsert sets the default role again); when the
  body has no email, the request is rejected and nothing is stored.
\<close>

theorem post_users_role_overwritten:
  assumes "user ''role'' = None"
  shows "if truthy (get user ''email'')
         then \<exists>d. findOne (matches ''email'' (get user ''email''))
                     (usersCollection (snd (post_users now user w))) = Some d
                 \<and> d ''role'' = Some (JStr ''user'')
         else post_users now user w = ((400, Message ''Email is required''), w)"
proof (cases "truthy (get user ''email'')")
  case False
  then show ?thesis by (simp add: post_users_def)
next
  case True
  let ?v = "get user ''email''"
  let ?q = "matches ''email'' ?v"
  let ?u = "user(''role'' \<mapsto> JStr ''user'', ''updatedAt'' \<mapsto> JDate now)"
  have email: "user ''email'' = Some ?v"
    using True by (cases "user ''email''") (simp_all add: get_def)
  have role: "js_or (get user ''role'') (JStr ''user'') = JStr ''user''"
    using assms by (simp add: get_def js_or_def)
  have q_upd: "?q (d ++ ?u)" for d
    using True email by (simp add: truthy_matches map_add_def)
  have role_upd: "(d ++ ?u) ''role'' = Some (JStr ''user'')" for d
    by (simp add: map_add_def)
  show ?thesis
  proof (cases "findOne ?q (usersCollection w)")
    case None
    let ?d = "[''email'' \<mapsto> ?v] ++ ?u"
    obtain e where
      ins: "fst (snd (insertOne ?d (usersCollection w) (next_oid w))) = usersCollection w @ [e]"
      and same: "\<forall>k. k \<noteq> ''_id'' \<longrightarrow> e k = ?d k"
      using insertOne_appends by blast
    have e: "usersCollection (snd (post_users now user w)) = usersCollection w @ [e]"
      using True None role ins
      by (simp add: post_users_def upsertOne_def Let_def findOne_None_iff case_prod_beta)
    have "e ''email'' = Some ?v" and re: "e ''role'' = Some (JStr ''user'')"
      using same email by (simp_all add: map_add_def)
    then have qe: "?q e"
      using True by (simp add: truthy_matches)
    have "findOne ?q (usersCollection w @ [e]) = Some e"
      using None qe by (rule findOne_append_new)
    then show ?thesis
      using True re by (simp add: e)
  next
    case (Some d0)
    then obtain pre post where split: "usersCollection w = pre @ d0 # post"
      and q0: "?q d0" and pre: "\<forall>e\<in>set pre. \<not> ?q e"
      using findOne_split by blast
    have ex: "list_ex ?q (usersCollection w)"
      using Some findOne_None_iff [of ?q "usersCollection w"] by auto
    have "usersCollection (snd (post_users now user w)) = pre @ (d0 ++ ?u) # post"
      using True ex role pre q0
      by (simp add: post_users_def upsertOne_def Let_def split updateOne_first case_prod_beta)
    moreover have "findOne ?q (pre @ (d0 ++ ?u) # post) = Some (d0 ++ ?u)"
      using pre q_upd by (rule findOne_first)
    ultimately show ?thesis
      using True role_upd [of d0] by simp
  qed
qed

text \<open>The stored administrator logs in again, the body without a role: the stored role
  becomes \<open>user\<close>.\<close>

theorem post_users_role_overwritten_witness:
  "findOne (matches ''email'' (JStr ''root@x.org'')) (usersCollection world_users) = Some admin_user
   \<and> admin_user ''role'' = Some (JStr ''admin'')
   \<and> (\<exists>d. findOne (matches ''email'' (JStr ''root@x.org''))
              (usersCollection (snd (post_users 1793629812345
                 [''email'' \<mapsto> JStr ''root@x.org'', ''name'' \<mapsto> JStr ''Root''] world_users))) = Some d
          \<and> d ''role'' = Some (JStr ''user''))"
  using post_users_role_overwritten
          [of "[''email'' \<mapsto> JStr ''root@x.org'', ''name'' \<mapsto> JStr ''Root'']"
              1793629812345 world_users]
  by (simp add: get_def)
     (simp add: world_users_def empty_world_def admin_user_def findOne_def matches_def)

section \<open>Checkout initiator\<close>

text \<open>
  C4, as the code has it. For an existing booking the charge is derived from the first
  truthy (non-zero, non-empty) of \<open>finalPrice\<close> and \<open>originalTotal\<close>, else from
  \<open>pricePerPerson\<close> times the guest count (\<open>guests\<close> when truthy, else \<open>numberOfGuests\<close>
  when truthy, else 1); it is \<^verbatim>\<open>Math.round\<close> of the product, in doubles, of that price
  and 100, and 0 when this is not a number. \<open>pricePerPerson\<close> 50 with \<open>guests\<close> 2 and no \<open>finalPrice\<close> or
  \<open>originalTotal\<close> gives 10000. When the charge is 0 the call fails with "Invalid booking
  amount" and the state is unchanged (no provider call); otherwise one session creation
  is sent to the provider, priced at the charge.
\<close>

theorem create_checkout_session_amount:
  assumes "truthy (get reqbody ''bookingId'')"
    and "ObjectId rt (get reqbody ''bookingId'') = Some oid"
    and "findOne (matches ''_id'' (JObjectId oid)) (bookingCollection w) = Some booking"
  shows "(truthy (get booking ''finalPrice'') \<longrightarrow>
            checkout_amount rt booking = cents (ToNumber rt (get booking ''finalPrice'')))
       \<and> (\<not> truthy (get booking ''finalPrice'') \<and> truthy (get booking ''originalTotal'') \<longrightarrow>
            checkout_amount rt booking = cents (ToNumber rt (get booking ''originalTotal'')))
       \<and> (\<not> truthy (get booking ''finalPrice'') \<and> \<not> truthy (get booking ''originalTotal'') \<longrightarrow>
            checkout_amount rt booking =
              cents (js_times rt (get booking ''pricePerPerson'')
                (if truthy (get booking ''guests'') then get booking ''guests''
                 else if truthy (get booking ''numberOfGuests'') then get booking ''numberOfGuests''
                 else JNum (Fin 1))))
       \<and> cents NaN = JNum (Fin 0)
       \<and> (\<forall>n. cents n =
              (if Math_round (num_times n (Fin 100)) = NaN then JNum (Fin 0)
               else JNum (Math_round (num_times n (Fin 100)))))
       \<and> (booking ''finalPrice'' = None \<and> booking ''originalTotal'' = None
            \<and> booking ''pricePerPerson'' = Some (JNum (Fin 50))
            \<and> booking ''guests'' = Some (JNum (Fin 2)) \<longrightarrow>
            checkout_amount rt booking = JNum (Fin 10000))
       \<and> (checkout_amount rt booking = JNum (Fin 0) \<longrightarrow>
            create_checkout_session rt sp reqbody w = ((400, Message ''Invalid booking amount''), w))
       \<and> (checkout_amount rt booking \<noteq> JNum (Fin 0) \<longrightarrow>
            snd (create_checkout_session rt sp reqbody w) =
              w\<lparr>stripe_calls := stripe_calls w @
                   [Create (checkout_session_request rt booking (checkout_amount rt booking))]\<rparr>
            \<and> req_unit_amount (checkout_session_request rt booking (checkout_amount rt booking)) =
                 checkout_amount rt booking)"
proof -
  have sel: "(truthy (get booking ''finalPrice'') \<longrightarrow>
            checkout_amount rt booking = cents (ToNumber rt (get booking ''finalPrice'')))
       \<and> (\<not> truthy (get booking ''finalPrice'') \<and> truthy (get booking ''originalTotal'') \<longrightarrow>
            checkout_amount rt booking = cents (ToNumber rt (get booking ''originalTotal'')))
       \<and> (\<not> truthy (get booking ''finalPrice'') \<and> \<not> truthy (get booking ''originalTotal'') \<longrightarrow>
            checkout_amount rt booking =
              cents (js_times rt (get booking ''pricePerPerson'')
                (if truthy (get booking ''guests'') then get booking ''guests''
                 else if truthy (get booking ''numberOfGuests'') then get booking ''numberOfGuests''
                 else JNum (Fin 1))))"
    by (simp add: checkout_amount_def booking_price_def guest_count_def js_or_def js_times_def
          to_double_num_times del: truthy.simps)
  have ex: "booking ''finalPrice'' = None \<and> booking ''originalTotal'' = None
            \<and> booking ''pricePerPerson'' = Some (JNum (Fin 50))
            \<and> booking ''guests'' = Some (JNum (Fin 2)) \<longrightarrow>
            checkout_amount rt booking = JNum (Fin 10000)"
    by (simp add: checkout_amount_def booking_price_def guest_count_def js_or_def get_def
          js_times_def cents_eq round_double_numeral floor_rat_numeral)
  have run: "(checkout_amount rt booking = JNum (Fin 0) \<longrightarrow>
            create_checkout_session rt sp reqbody w = ((400, Message ''Invalid booking amount''), w))
       \<and> (checkout_amount rt booking \<noteq> JNum (Fin 0) \<longrightarrow>
            snd (create_checkout_session rt sp reqbody w) =
              w\<lparr>stripe_calls := stripe_calls w @
                   [Create (checkout_session_request rt booking (checkout_amount rt booking))]\<rparr>
            \<and> req_unit_amount (checkout_session_request rt booking (checkout_amount rt booking)) =
                 checkout_amount rt booking)"
    by (simp add: create_checkout_session_found [OF assms] checkout_session_request_def)
  show ?thesis
    using sel ex run cents_NaN cents_eq by blast
qed

text \<open>The booking with \<open>pricePerPerson\<close> 50 and \<open>guests\<close> 2 is charged 10000 cents.\<close>

theorem create_checkout_session_amount_witness:
  "checkout_amount demo_runtime booking1 = JNum (Fin 10000)
   \<and> snd (create_checkout_session demo_runtime demo_stripe request1 (world_of booking1)) =
       (world_of booking1)\<lparr>stripe_calls := stripe_calls (world_of booking1) @
          [Create (checkout_session_request demo_runtime booking1 (JNum (Fin 10000)))]\<rparr>"
proof -
  have found: "findOne (matches ''_id'' (JObjectId 1)) (bookingCollection (world_of booking1))
      = Some booking1"
    by (rule findOne_world_of) (simp add: booking1_def)
  have fields: "booking1 ''finalPrice'' = None \<and> booking1 ''originalTotal'' = None
      \<and> booking1 ''pricePerPerson'' = Some (JNum (Fin 50))
      \<and> booking1 ''guests'' = Some (JNum (Fin 2))"
    by (simp add: booking1_def)
  have amount: "checkout_amount demo_runtime booking1 = JNum (Fin 10000)"
    using create_checkout_session_amount [OF request1_bookingId found, of demo_stripe] fields
    by blast
  then have "checkout_amount demo_runtime booking1 \<noteq> JNum (Fin 0)"
    by simp
  then show ?thesis
    using create_checkout_session_amount [OF request1_bookingId found, of demo_stripe] amount
    by simp
qed

text \<open>
  C4, as the claim states it, fails. With \<open>finalPrice\<close> 0 and \<open>originalTotal\<close> 5 the price
  preferred by the claim's rule is the explicit final price 0, a zero amount, for which the
  claim promises "Invalid booking amount"; the code creates a session priced at 500 cents.
\<close>

theorem stated_price_counterexample:
  "cents (ToNumber demo_runtime (stated_price demo_runtime zero_final_booking)) = JNum (Fin 0)
   \<and> fst (create_checkout_session demo_runtime demo_stripe request1 (world_of zero_final_booking)) =
       (200, CheckoutUrl ''https://checkout.example/c/1'')
   \<and> map (\<lambda>c. case c of Create rq \<Rightarrow> req_unit_amount rq | Retrieve _ \<Rightarrow> JUndefined)
        (stripe_calls (snd (create_checkout_session demo_runtime demo_stripe request1
           (world_of zero_final_booking)))) = [JNum (Fin 500)]"
proof -
  have found: "findOne (matches ''_id'' (JObjectId 1)) (bookingCollection (world_of zero_final_booking))
      = Some zero_final_booking"
    by (rule findOne_world_of) (simp add: zero_final_booking_def booking1_def)
  have amount: "checkout_amount demo_runtime zero_final_booking = JNum (Fin 500)"
    by (simp add: checkout_amount_def booking_price_def js_or_def get_def zero_final_booking_def
          cents_eq round_double_0 round_double_numeral floor_rat_numeral)
  have stated: "cents (ToNumber demo_runtime (stated_price demo_runtime zero_final_booking))
      = JNum (Fin 0)"
    by (simp add: stated_price_def zero_final_booking_def cents_eq round_double_0 floor_rat_one)
  have run: "create_checkout_session demo_runtime demo_stripe request1 (world_of zero_final_booking) =
      ((200, CheckoutUrl ''https://checkout.example/c/1''),
       (world_of zero_final_booking)\<lparr>stripe_calls := stripe_calls (world_of zero_final_booking) @
          [Create (checkout_session_request demo_runtime zero_final_booking (JNum (Fin 500)))]\<rparr>)"
    by (simp add: create_checkout_session_found [OF request1_bookingId found] amount
          demo_sessions_create)
  show ?thesis
    unfolding run
    by (simp add: stated world_of_fields checkout_session_request_def)
qed

text \<open>
  C10, as the code has it. For an existing booking whose \<open>finalPrice\<close> is falsy (0, absent,
  empty) and whose \<open>originalTotal\<close> is a number of at least 0.005 (half a cent), the charge
  is \<^verbatim>\<open>Math.round\<close> of the product, in doubles, of \<open>originalTotal\<close> and 100: an integer of
  at least 1 (or infinite, when the product overflows). The call does not fail with "Invalid
  booking amount" but sends one session creation, priced at that charge, to the provider.
\<close>

theorem zero_final_price_falls_through:
  assumes "truthy (get reqbody ''bookingId'')"
    and "ObjectId rt (get reqbody ''bookingId'') = Some oid"
    and "findOne (matches ''_id'' (JObjectId oid)) (bookingCollection w) = Some booking"
    and "\<not> truthy (get booking ''finalPrice'')"
    and "get booking ''originalTotal'' = JNum (Fin x)"
    and "1 / 200 \<le> x"
  shows "\<exists>a. checkout_amount rt booking = JNum a
           \<and> a = Math_round (num_times (round_double x) (Fin 100))
           \<and> (a = Infinity True \<or> (\<exists>k. a = Fin (of_int k) \<and> 1 \<le> k))
           \<and> snd (create_checkout_session rt sp reqbody w) =
               w\<lparr>stripe_calls := stripe_calls w @
                    [Create (checkout_session_request rt booking (JNum a))]\<rparr>
           \<and> fst (create_checkout_session rt sp reqbody w)
                 \<noteq> (400, Message ''Invalid booking amount'')"
proof -
  obtain a where cents: "cents (round_double x) = JNum a"
    and a: "a = Math_round (num_times (round_double x) (Fin 100))"
    and pos: "a = Infinity True \<or> (\<exists>k. a = Fin (of_int k) \<and> 1 \<le> k)"
    using cents_half_cent [OF assms(6)] by blast
  have "0 < x" using assms(6) by simp
  moreover have "1 / 200 \<le> round_mag x"
    using assms(6) by (rule round_mag_ge_half_cent)
  ultimately have "round_double x = Infinity True \<or> (\<exists>r. round_double x = Fin r \<and> 1 / 200 \<le> r)"
    by (rule round_double_lower)
  then have total: "truthy (JNum (Fin x))"
    by auto
  have amount: "checkout_amount rt booking = JNum a"
    using assms(4,5) total by (simp add: checkout_amount_def booking_price_def js_or_def cents)
  have nz: "a \<noteq> Fin 0"
    using pos by auto
  show ?thesis
    using a pos nz
    by (simp add: create_checkout_session_found [OF assms(1-3)] amount split: option.splits)
qed

text \<open>\<open>finalPrice\<close> 0 and \<open>originalTotal\<close> 5: the charge is 500 cents.\<close>

theorem zero_final_price_falls_through_witness:
  "checkout_amount demo_runtime zero_final_booking = JNum (Fin 500)
   \<and> fst (create_checkout_session demo_runtime demo_stripe request1 (world_of zero_final_booking))
       \<noteq> (400, Message ''Invalid booking amount'')"
proof -
  have found: "findOne (matches ''_id'' (JObjectId 1)) (bookingCollection (world_of zero_final_booking))
      = Some zero_final_booking"
    by (rule findOne_world_of) (simp add: zero_final_booking_def booking1_def)
  have zero: "\<not> truthy (get zero_final_booking ''finalPrice'')"
    and total: "get zero_final_booking ''originalTotal'' = JNum (Fin 5)"
    by (simp_all add: zero_final_booking_def get_def round_double_0)
  have "(1 :: rat) / 200 \<le> 5" by simp
  from zero_final_price_falls_through [OF request1_bookingId found zero total this, of demo_stripe]
  show ?thesis by (auto simp: round_double_numeral floor_rat_numeral)
qed

text \<open>
  C10, as the claim states it, fails for a positive \<open>originalTotal\<close> below half a cent: with
  \<open>finalPrice\<close> 0 and \<open>originalTotal\<close> 0.001 the product with 100 is the double 0.1, the
  charge rounds to 0 and the call fails with "Invalid booking amount".
\<close>

theorem sub_cent_total_counterexample:
  "\<not> truthy (get sub_cent_booking ''finalPrice'')
   \<and> get sub_cent_booking ''originalTotal'' = JNum (Fin (1 / 1000))
   \<and> create_checkout_session demo_runtime demo_stripe request1 (world_of sub_cent_booking) =
       ((400, Message ''Invalid booking amount''), world_of sub_cent_booking)"
proof -
  have found: "findOne (matches ''_id'' (JObjectId 1)) (bookingCollection (world_of sub_cent_booking))
      = Some sub_cent_booking"
    by (rule findOne_world_of) (simp add: sub_cent_booking_def booking1_def)
  have total: "truthy (JNum (Fin (1 / 1000)))"
    by (simp add: round_double_milli)
  have price: "booking_price demo_runtime sub_cent_booking = JNum (Fin (1 / 1000))"
    using total truthy_zero
    by (simp add: booking_price_def js_or_def get_def sub_cent_booking_def del: truthy.simps)
  have amount: "checkout_amount demo_runtime sub_cent_booking = JNum (Fin 0)"
    by (simp add: checkout_amount_def price cents_eq round_double_milli_100 floor_rat_numeral)
  show ?thesis
    by (simp add: create_checkout_session_found [OF request1_bookingId found] amount)
       (simp add: sub_cent_booking_def get_def round_double_0)
qed

text \<open>
  C6, as the code has it. For a \<open>bookingId\<close> that references no existing booking the call
  makes no provider call and changes no store: the state is returned as it was. When the
  \<open>bookingId\<close> is given and well formed (the ObjectId constructor accepts it), the call
  fails with status 404, "Booking not found".
\<close>

theorem create_checkout_session_unknown_booking:
  assumes "\<forall>oid. ObjectId rt (get reqbody ''bookingId'') = Some oid \<longrightarrow>
             findOne (matches ''_id'' (JObjectId oid)) (bookingCollection w) = None"
  shows "snd (create_checkout_session rt sp reqbody w) = w
       \<and> (truthy (get reqbody ''bookingId'') \<and> ObjectId rt (get reqbody ''bookingId'') \<noteq> None
            \<longrightarrow> fst (create_checkout_session rt sp reqbody w) = (404, Message ''Booking not found''))"
  using assms by (auto simp: create_checkout_session_def Let_def split: option.splits)

text \<open>The well-formed id 2, where only the booking with id 1 exists.\<close>

theorem create_checkout_session_unknown_booking_witness:
  "create_checkout_session demo_runtime demo_stripe
     [''bookingId'' \<mapsto> JStr ''000000000000000000000002''] (world_of booking1) =
     ((404, Message ''Booking not found''), world_of booking1)"
proof -
  have id: "get [''bookingId'' \<mapsto> JStr ''000000000000000000000002''] ''bookingId''
      = JStr ''000000000000000000000002''"
    by (simp add: get_def)
  have "\<forall>oid. ObjectId demo_runtime (get [''bookingId'' \<mapsto> JStr ''000000000000000000000002'']
                  ''bookingId'') = Some oid \<longrightarrow>
          findOne (matches ''_id'' (JObjectId oid)) (bookingCollection (world_of booking1)) = None"
    by (simp add: id demo_ObjectId_2 world_of_fields findOne_def matches_def booking1_def)
  from create_checkout_session_unknown_booking [OF this, of demo_stripe]
  show ?thesis
    by (simp add: id demo_ObjectId_2 prod_eq_iff)
qed

text \<open>
  C6, as the claim states it, fails for a malformed id: \<open>abc\<close> references no booking, the
  ObjectId constructor throws, and the call is answered with status 500, not 404.
\<close>

theorem malformed_bookingId_counterexample:
  "ObjectId demo_runtime (JStr ''abc'') = None
   \<and> create_checkout_session demo_runtime demo_stripe [''bookingId'' \<mapsto> JStr ''abc'']
       (world_of booking1)
       = ((500, Message ''Failed to create checkout session''), world_of booking1)"
  by (simp add: create_checkout_session_def get_def demo_ObjectId_abc)

section \<open>Dashboard: the booking chart\<close>

lemma bump_keys: "fst ` set (bump key m) = insert key (fst ` set m)"
  by (induction key m rule: bump.induct) auto

lemma bump_distinct: "distinct (map fst m) \<Longrightarrow> distinct (map fst (bump key m))"
proof (induction key m rule: bump.induct)
  case (1 key)
  then show ?case by simp
next
  case (2 key k c m)
  have "set (map fst (bump key m)) = insert key (set (map fst m))"
    using bump_keys [of key m] by simp
  with 2 show ?case by auto
qed

lemma bump_map_of:
  "map_of (bump key m) =
     (map_of m)(key \<mapsto> (case map_of m key of None \<Rightarrow> 1 | Some c \<Rightarrow> c + 1))"
  by (induction key m rule: bump.induct) (auto simp: fun_eq_iff)

lemma monthMap_snoc:
  "monthMap rt (bs @ [b]) =
     (case localYearMonth rt (get b ''createdAt'') of
        None \<Rightarrow> monthMap rt bs
      | Some key \<Rightarrow> bump key (monthMap rt bs))"
  by (simp add: monthMap_def split: option.splits)

lemma created_in_snoc:
  "created_in rt (bs @ [b]) key =
     created_in rt bs key + (if localYearMonth rt (get b ''createdAt'') = Some key then 1 else 0)"
  by (simp add: created_in_def)

lemma monthMap_distinct: "distinct (map fst (monthMap rt bs))"
proof (induction bs rule: rev_induct)
  case Nil
  then show ?case by (simp add: monthMap_def)
next
  case (snoc b bs)
  then show ?case by (simp add: monthMap_snoc bump_distinct split: option.splits)
qed

lemma monthMap_map_of:
  "map_of (monthMap rt bs) key =
     (if created_in rt bs key = 0 then None else Some (created_in rt bs key))"
proof (induction bs rule: rev_induct)
  case Nil
  then show ?case by (simp add: monthMap_def created_in_def)
next
  case (snoc b bs)
  show ?case
  proof (cases "localYearMonth rt (get b ''createdAt'')")
    case None
    then show ?thesis by (simp add: monthMap_snoc created_in_snoc snoc.IH)
  next
    case (Some k)
    show ?thesis
    proof (cases "k = key")
      case True
      then show ?thesis using Some by (simp add: monthMap_snoc created_in_snoc snoc.IH bump_map_of)
    next
      case False
      then show ?thesis using Some by (simp add: monthMap_snoc created_in_snoc snoc.IH bump_map_of)
    qed
  qed
qed

lemma monthMap_entry:
  "(key, c) \<in> set (monthMap rt bs) \<longleftrightarrow> c = created_in rt bs key \<and> 0 < c"
proof -
  have "(key, c) \<in> set (monthMap rt bs) \<longleftrightarrow> map_of (monthMap rt bs) key = Some c"
    using monthMap_distinct by simp
  then show ?thesis by (auto simp: monthMap_map_of)
qed

lemma chart_months_subset: "set (chart_months rt bs) \<subseteq> set (monthMap rt bs)"
proof -
  have "set (chart_months rt bs) \<subseteq> set (sort_key (\<lambda>e. sortKey (fst e)) (monthMap rt bs))"
    unfolding chart_months_def Let_def by (rule set_drop_subset)
  then show ?thesis by simp
qed

lemma chart_months_length: "length (chart_months rt bs) \<le> 6"
  by (simp add: chart_months_def Let_def)

lemma chart_months_distinct: "distinct (map fst (chart_months rt bs))"
proof -
  let ?s = "sort_key (\<lambda>e. sortKey (fst e)) (monthMap rt bs)"
  have "distinct (map fst (monthMap rt bs))" by (rule monthMap_distinct)
  then have "distinct ?s \<and> inj_on fst (set ?s)"
    by (simp add: distinct_map)
  then have "distinct (drop (length ?s - 6) ?s) \<and> inj_on fst (set (drop (length ?s - 6) ?s))"
    using set_drop_subset [of "length ?s - 6" ?s] by (auto intro: inj_on_subset)
  then show ?thesis
    by (simp add: chart_months_def Let_def distinct_map del: length_sort)
qed

lemma last_six:
  assumes "sorted (map f xs)" and "x \<in> set xs" and "x \<notin> set (drop (length xs - 6) xs)"
  shows "length (drop (length xs - 6) xs) = 6
       \<and> (\<forall>y \<in> set (drop (length xs - 6) xs). f x \<le> f y)"
proof -
  let ?n = "length xs - 6"
  have "sorted (map f (take ?n xs) @ map f (drop ?n xs))"
    using assms(1) by (simp flip: map_append)
  then have le: "\<forall>a \<in> set (take ?n xs). \<forall>b \<in> set (drop ?n xs). f a \<le> f b"
    by (auto simp: sorted_append)
  have "set xs = set (take ?n xs) \<union> set (drop ?n xs)"
    by (metis append_take_drop_id set_append)
  then have taken: "x \<in> set (take ?n xs)"
    using assms(2,3) by blast
  then have "0 < ?n" by (cases ?n) auto
  then have "length (drop ?n xs) = 6" by simp
  then show ?thesis using le taken by blast
qed

lemma chart_months_latest:
  assumes "e \<in> set (monthMap rt bs)" and "e \<notin> set (chart_months rt bs)"
  shows "length (chart_months rt bs) = 6
       \<and> (\<forall>e' \<in> set (chart_months rt bs). sortKey (fst e) \<le> sortKey (fst e'))"
proof -
  let ?s = "sort_key (\<lambda>e. sortKey (fst e)) (monthMap rt bs)"
  have chart: "chart_months rt bs = drop (length ?s - 6) ?s"
    unfolding chart_months_def Let_def ..
  have "sorted (map (\<lambda>e. sortKey (fst e)) ?s)"
    by (rule sorted_sort_key)
  moreover have "e \<in> set ?s"
    using assms(1) by simp
  moreover have "e \<notin> set (drop (length ?s - 6) ?s)"
    using assms(2) unfolding chart .
  ultimately show ?thesis
    unfolding chart by (rule last_six)
qed

text \<open>
  C7, as the code has it. The chart never consults the time of the call. Each of its
  entries is a calendar month in which at least one booking was created, with the number
  of bookings created in that month as its count; a month without bookings has no entry.
  There are at most six entries, for distinct months, in the order of the sort key, and
  they are the latest months with bookings: a month with bookings is left out only when
  six entries are shown, none of them earlier than it.
\<close>

theorem chart_months_entries:
  "length (chart_months rt bs) \<le> 6
   \<and> distinct (map fst (chart_months rt bs))
   \<and> sorted (map (\<lambda>e. sortKey (fst e)) (chart_months rt bs))
   \<and> (\<forall>e \<in> set (chart_months rt bs). snd e = created_in rt bs (fst e) \<and> 0 < snd e)
   \<and> (\<forall>key. 0 < created_in rt bs key \<and> key \<notin> fst ` set (chart_months rt bs) \<longrightarrow>
         length (chart_months rt bs) = 6
         \<and> (\<forall>e \<in> set (chart_months rt bs). sortKey key \<le> sortKey (fst e)))"
proof -
  have entries: "\<forall>e \<in> set (chart_months rt bs). snd e = created_in rt bs (fst e) \<and> 0 < snd e"
  proof
    fix e assume "e \<in> set (chart_months rt bs)"
    then have "(fst e, snd e) \<in> set (monthMap rt bs)"
      using chart_months_subset by auto
    then show "snd e = created_in rt bs (fst e) \<and> 0 < snd e"
      using monthMap_entry by blast
  qed
  have latest: "\<forall>key. 0 < created_in rt bs key \<and> key \<notin> fst ` set (chart_months rt bs) \<longrightarrow>
         length (chart_months rt bs) = 6
         \<and> (\<forall>e \<in> set (chart_months rt bs). sortKey key \<le> sortKey (fst e))"
  proof (intro allI impI)
    fix key assume key: "0 < created_in rt bs key \<and> key \<notin> fst ` set (chart_months rt bs)"
    then have "(key, created_in rt bs key) \<in> set (monthMap rt bs)"
      by (simp add: monthMap_entry)
    moreover have "(key, created_in rt bs key) \<notin> set (chart_months rt bs)"
      using key by force
    ultimately show "length (chart_months rt bs) = 6
         \<and> (\<forall>e \<in> set (chart_months rt bs). sortKey key \<le> sortKey (fst e))"
      using chart_months_latest [of "(key, created_in rt bs key)" rt bs] by simp
  qed
  have "sorted (map (\<lambda>e. sortKey (fst e)) (chart_months rt bs))"
    unfolding chart_months_def Let_def drop_map [symmetric]
    by (intro sorted_wrt_drop sorted_sort_key)
  then show ?thesis
    using chart_months_length chart_months_distinct entries latest by blast
qed



subsection \<open>The examples\<close>

lemma civil_2020:
  "civil 18276 = (2020, 1, 15)" "civil 18307 = (2020, 2, 15)" "civil 18336 = (2020, 3, 15)"
  "civil 18367 = (2020, 4, 15)" "civil 18397 = (2020, 5, 15)" "civil 18428 = (2020, 6, 15)"
  "civil 18458 = (2020, 7, 15)" "civil 18463 = (2020, 7, 20)"
  unfolding civil_def Let_def by simp_all

lemma civil_2026: "civil 20759 = (2026, 11, 2)"
  unfolding civil_def Let_def by simp

lemma demo_localYearMonth_2020:
  "localYearMonth demo_runtime (JDate 1579046400000) = Some (2020, 0)"
  "localYearMonth demo_runtime (JDate 1581724800000) = Some (2020, 1)"
  "localYearMonth demo_runtime (JDate 1584230400000) = Some (2020, 2)"
  "localYearMonth demo_runtime (JDate 1586908800000) = Some (2020, 3)"
  "localYearMonth demo_runtime (JDate 1589500800000) = Some (2020, 4)"
  "localYearMonth demo_runtime (JDate 1592179200000) = Some (2020, 5)"
  "localYearMonth demo_runtime (JDate 1594771200000) = Some (2020, 6)"
  "localYearMonth demo_runtime (JDate 1595203200000) = Some (2020, 6)"
  by (simp_all add: demo_runtime_def utc_year_month_def civil_2020)

lemma demo_localYearMonth_2026:
  "localYearMonth demo_runtime (JDate 1793629812345) = Some (2026, 10)"
  by (simp add: demo_runtime_def utc_year_month_def civil_2026)

lemma chart_months_2020:
  "chart_months demo_runtime bookings_2020 =
     [((2020, 1), 1), ((2020, 2), 1), ((2020, 3), 1), ((2020, 4), 1), ((2020, 5), 1),
      ((2020, 6), 2)]"
  by (simp add: chart_months_def monthMap_def bookings_2020_def get_def
        demo_localYearMonth_2020 sortKey_def)

text \<open>Of the seven months of 2020 with bookings the chart shows the last six; January is
  left out, July has two bookings.\<close>

theorem chart_months_entries_witness:
  "created_in demo_runtime bookings_2020 (2020, 0) = 1
   \<and> (2020, 0) \<notin> fst ` set (chart_months demo_runtime bookings_2020)
   \<and> length (chart_months demo_runtime bookings_2020) = 6
   \<and> ((2020, 1), 1) \<in> set (chart_months demo_runtime bookings_2020)
   \<and> sortKey (2020, 0) \<le> sortKey (2020, 1)
   \<and> ((2020, 6), 2) \<in> set (chart_months demo_runtime bookings_2020)
   \<and> created_in demo_runtime bookings_2020 (2020, 6) = 2"
proof -
  have count: "created_in demo_runtime bookings_2020 (2020, 0) = 1"
    by (simp add: created_in_def bookings_2020_def get_def demo_localYearMonth_2020)
  have out: "(2020, 0) \<notin> fst ` set (chart_months demo_runtime bookings_2020)"
    and july: "((2020, 6), 2) \<in> set (chart_months demo_runtime bookings_2020)"
    and february: "((2020, 1), 1) \<in> set (chart_months demo_runtime bookings_2020)"
    by (simp_all add: chart_months_2020)
  show ?thesis
    using chart_months_entries [of demo_runtime bookings_2020] count out july february
    by (metis fst_conv snd_conv zero_less_one)
qed

text \<open>
  C7, as the claim states it, fails: with a single booking created in January 2020, a
  dashboard call in November 2026 shows the entry "Jan 20", a month outside the six months
  that end with the call.
\<close>

theorem chart_outside_window_counterexample:
  "chart_months demo_runtime (bookingCollection (world_of booking1)) = [((2020, 0), 1)]
   \<and> bookingChartData demo_runtime (bookingCollection (world_of booking1)) = [(''Jan 20'', 1)]
   \<and> localYearMonth demo_runtime (JDate 1793629812345) = Some (2026, 10)
   \<and> \<not> in_trailing_window (2026, 10) (2020, 0)"
proof -
  have "get booking1 ''createdAt'' = JDate 1579046400000"
    by (simp add: booking1_def get_def)
  then have chart: "chart_months demo_runtime (bookingCollection (world_of booking1)) = [((2020, 0), 1)]"
    by (simp add: world_of_fields chart_months_def monthMap_def demo_localYearMonth_2020)
  have name: "chart_name (2020, 0) = ''Jan 20''"
    by (simp add: chart_name_def monthNames_def decimal.simps)
  show ?thesis
    by (simp add: chart bookingChartData_def name demo_localYearMonth_2026
          in_trailing_window_def month_index_def)
qed

end
